theory Spec2Isabelle
  imports Complex_Main
begin

chapter \<open>The transformer diffusion model and its wrappers\<close>

text \<open>
  A shallow embedding of \<open>codes/models/audio/music/transformer_diffusion12.py\<close>: the
  constructor's parameter freezing, the temperature schedule of the quantizer wrapper, the
  channel partition of the multi-codec wrapper, and the forward passes of SubBlock,
  ConcatAttentionBlock and TransformerDiffusion. Exceptions are values of a sum type,
  random draws are arguments, and tensors carry real numbers. The definitions come first,
  the properties after them.
\<close>

section \<open>Errors\<close>

text \<open>The exceptions the modelled code can raise; a result is \<open>Inl\<close> of one of them or \<open>Inr\<close> of a value.\<close>

datatype error =
  AssertionError | AttributeError | TypeError | ZeroDivisionError | RuntimeError | IndexError

type_synonym 'a res = "error + 'a"

definition and_then :: "'a res \<Rightarrow> ('a \<Rightarrow> 'b res) \<Rightarrow> 'b res" where
  "and_then m f = (case m of Inl e \<Rightarrow> Inl e | Inr v \<Rightarrow> f v)"

section \<open>Parameter freezing in the constructor of TransformerDiffusion\<close>

text \<open>
  The attributes and submodules that the constructor registers on the model and that own
  parameters (or, like the rotary embedding, may own none).
\<close>

datatype submodule =
  M_inp_block | M_time_embed | M_ar_input | M_ar_prior_intg | M_input_converter
  | M_code_converter | M_unconditioned_embedding | M_rotary_embeddings | M_intg
  | M_layers | M_out

text \<open>
  A parameter tensor is named by its module and its position in that module's
  \<open>parameters()\<close>. What the constructor touches on a parameter: \<open>requires_grad\<close>, and the
  ad hoc attribute \<open>DO_NOT_TRAIN\<close>, which is absent (\<open>None\<close>) until it is set and again after
  \<open>del\<close>.
\<close>

type_synonym param = "submodule \<times> nat"

record param_attrs =
  requires_grad :: bool
  DO_NOT_TRAIN :: "bool option"

type_synonym param_store = "param \<Rightarrow> param_attrs"

definition fresh_params :: param_store where
  "fresh_params = (\<lambda>_. \<lparr>requires_grad = True, DO_NOT_TRAIN = None\<rparr>)"

text \<open>
  Which attributes exist depends on \<open>ar_prior\<close>: the constructor creates either
  \<open>ar_input\<close>/\<open>ar_prior_intg\<close> or \<open>input_converter\<close>/\<open>code_converter\<close>.
\<close>

definition submodules :: "bool \<Rightarrow> submodule list" where
  "submodules ar_prior =
     [M_inp_block, M_time_embed]
     @ (if ar_prior then [M_ar_input, M_ar_prior_intg] else [M_input_converter, M_code_converter])
     @ [M_unconditioned_embedding, M_rotary_embeddings, M_intg, M_layers, M_out]"

definition getattr :: "bool \<Rightarrow> submodule \<Rightarrow> submodule res" where
  "getattr ar_prior m = (if m \<in> set (submodules ar_prior) then Inr m else Inl AttributeError)"

text \<open>\<open>np m\<close> is the number of parameter tensors of module \<open>m\<close>.\<close>

definition parameters_of :: "(submodule \<Rightarrow> nat) \<Rightarrow> submodule \<Rightarrow> param list" where
  "parameters_of np m = map (Pair m) [0..<np m]"

definition all_parameters :: "(submodule \<Rightarrow> nat) \<Rightarrow> bool \<Rightarrow> param list" where
  "all_parameters np ar_prior = concat (map (parameters_of np) (submodules ar_prior))"

text \<open>
  Python's \<open>a and b\<close> on objects evaluates to \<open>b\<close> when \<open>a\<close> is truthy and to \<open>a\<close>
  otherwise. A module object defines neither \<open>__bool__\<close> nor \<open>__len__\<close>, so it is truthy.
\<close>

definition module_truthy :: "submodule \<Rightarrow> bool" where
  "module_truthy m = True"

definition py_and :: "submodule \<Rightarrow> submodule \<Rightarrow> submodule" where
  "py_and a b = (if module_truthy a then b else a)"

text \<open>
  \<^verbatim>\<open>
  for p in self.parameters():
      p.DO_NOT_TRAIN = True
      p.requires_grad = False
  \<close>
\<close>

definition freeze_param :: "param \<Rightarrow> param_store \<Rightarrow> param_store" where
  "freeze_param p st =
     st(p := (st p)\<lparr>DO_NOT_TRAIN := Some True, requires_grad := False\<rparr>)"

definition freeze_params :: "param list \<Rightarrow> param_store \<Rightarrow> param_store" where
  "freeze_params ps st = fold freeze_param ps st"

text \<open>
  \<^verbatim>\<open>
  for p in m.parameters():
      del p.DO_NOT_TRAIN
      p.requires_grad = True
  \<close>
  \<open>del\<close> of an attribute that is not there raises AttributeError.
\<close>

fun unfreeze_params :: "param list \<Rightarrow> param_store \<Rightarrow> param_store res" where
  "unfreeze_params [] st = Inr st"
| "unfreeze_params (p # ps) st =
     (case DO_NOT_TRAIN (st p) of
        None \<Rightarrow> Inl AttributeError
      | Some _ \<Rightarrow>
          unfreeze_params ps (st(p := (st p)\<lparr>DO_NOT_TRAIN := None, requires_grad := True\<rparr>)))"

fun unfreeze_modules ::
  "(submodule \<Rightarrow> nat) \<Rightarrow> submodule list \<Rightarrow> param_store \<Rightarrow> param_store res" where
  "unfreeze_modules np [] st = Inr st"
| "unfreeze_modules np (m # ms) st =
     and_then (unfreeze_params (parameters_of np m) st) (unfreeze_modules np ms)"

text \<open>
  The tail of the constructor:
  \<^verbatim>\<open>
  if freeze_except_code_converters:
      for p in self.parameters(): ...
      for m in [self.input_converter and self.code_converter]:
          for p in m.parameters(): ...
  \<close>
  The list literal has one element, the value of the \<open>and\<close> expression.
\<close>

definition init_param_store ::
  "(submodule \<Rightarrow> nat) \<Rightarrow> bool \<Rightarrow> bool \<Rightarrow> param_store res" where
  "init_param_store np ar_prior freeze_except_code_converters =
     (if freeze_except_code_converters then
        (let st = freeze_params (all_parameters np ar_prior) fresh_params in
         and_then (getattr ar_prior M_input_converter) (\<lambda>a.
         and_then (getattr ar_prior M_code_converter) (\<lambda>b.
           unfreeze_modules np [py_and a b] st)))
      else Inr fresh_params)"

section \<open>Quantizer temperature schedule\<close>

text \<open>
  The attributes of the quantizer that \<open>TransformerDiffusionWithQuantizer\<close> reads and
  writes: the two temperature bounds and the decay factor of \<open>self.quantizer\<close>, and the
  \<open>temperature\<close> of its inner quantizer \<open>self.quantizer.quantizer\<close>. The constructor
  passes \<open>max_gumbel_temperature=4\<close> and \<open>min_gumbel_temperature=.5\<close>; the decay factor is
  the default of the quantizer class, which is not part of this file, so it stays a field
  of the record.
\<close>

record quantizer =
  max_gumbel_temperature :: real
  min_gumbel_temperature :: real
  gumbel_temperature_decay :: real
  temperature :: real

record TransformerDiffusionWithQuantizer =
  internal_step :: int
  freeze_quantizer_until :: int
  quantizer :: quantizer

text \<open>
  \<^verbatim>\<open>
  def update_for_step(self, step, *args):
      self.internal_step = step
      qstep = max(0, self.internal_step - self.freeze_quantizer_until)
      self.quantizer.quantizer.temperature = max(
          self.quantizer.max_gumbel_temperature * self.quantizer.gumbel_temperature_decay ** qstep,
          self.quantizer.min_gumbel_temperature)
  \<close>
\<close>

definition qstep_of :: "TransformerDiffusionWithQuantizer \<Rightarrow> int \<Rightarrow> nat" where
  "qstep_of m step = nat (max 0 (step - freeze_quantizer_until m))"

definition update_for_step ::
  "TransformerDiffusionWithQuantizer \<Rightarrow> int \<Rightarrow> TransformerDiffusionWithQuantizer" where
  "update_for_step m step =
     (let q = quantizer m;
          qstep = qstep_of m step;
          t = max (max_gumbel_temperature q * gumbel_temperature_decay q ^ qstep)
                  (min_gumbel_temperature q)
      in m\<lparr>internal_step := step, quantizer := q\<lparr>temperature := t\<rparr>\<rparr>)"

definition temperature_at :: "TransformerDiffusionWithQuantizer \<Rightarrow> int \<Rightarrow> real" where
  "temperature_at m step = temperature (quantizer (update_for_step m step))"

text \<open>The constructor's settings, for a given freeze threshold and decay factor.\<close>

definition init_with_quantizer :: "int \<Rightarrow> real \<Rightarrow> TransformerDiffusionWithQuantizer" where
  "init_with_quantizer freeze decay =
     \<lparr>internal_step = 0, freeze_quantizer_until = freeze,
      quantizer = \<lparr>max_gumbel_temperature = 4, min_gumbel_temperature = 1/2,
                   gumbel_temperature_decay = decay, temperature = 1/2\<rparr>\<rparr>"

section \<open>The multi-codec wrapper\<close>

text \<open>
  The reference \<open>truth_mel\<close> has shape (batch, channels, time). The wrapper only indexes
  its channel axis, so the reference is modelled as the list of its channels, each channel
  being the (batch, time) slab of that index; \<open>truth_mel.shape[1]\<close> is the length of the
  list. For \<open>0 \<le> lo \<le> hi\<close> the slice \<open>truth_mel[:, lo:hi]\<close> keeps the channels
  \<open>lo, ..., hi - 1\<close> that exist: a Python slice is clipped at the end of the axis and
  never raises.
\<close>

definition slice_channels :: "'c list \<Rightarrow> nat \<Rightarrow> nat \<Rightarrow> 'c list" where
  "slice_channels mel lo hi = take (hi - lo) (drop lo mel)"

text \<open>
  A projection \<open>p.permute(0,2,1)\<close> has shape (batch, sequence, features) and is a nested
  list in that order. A codec is the function from the band it is given to that
  projection, \<open>q.infer(mel_partition)[1].permute(0,2,1)\<close>; it may raise.
\<close>

type_synonym 'a tensor3 = "'a list list list"

type_synonym ('c, 'a) codec = "'c list \<Rightarrow> 'a tensor3 res"

text \<open>
  \<open>torch.cat(proj, dim=-1)\<close>: the list must not be empty and the tensors must agree on
  every axis but the last; the feature vectors at each (batch, position) are appended in
  list order.
\<close>

definition same_outer :: "'a tensor3 \<Rightarrow> 'a tensor3 \<Rightarrow> bool" where
  "same_outer p q = (map length p = map length q)"

definition cat_last :: "'a tensor3 list \<Rightarrow> 'a tensor3 res" where
  "cat_last ps =
     (case ps of
        [] \<Rightarrow> Inl RuntimeError
      | p # rest \<Rightarrow>
          if list_all (same_outer p) rest
          then Inr (map (\<lambda>b. map (\<lambda>s. concat (map (\<lambda>q. q ! b ! s) ps)) [0..<length (p ! b)])
                        [0..<length p])
          else Inl RuntimeError)"

text \<open>
  \<^verbatim>\<open>
  proj = []
  partition_size = truth_mel.shape[1] // len(self.quantizers)
  for i, q in enumerate(self.quantizers):
      mel_partition = truth_mel[:, i*partition_size:(i+1)*partition_size]
      _, p = q.infer(mel_partition)
      proj.append(p.permute(0,2,1))
  proj = torch.cat(proj, dim=-1)
  \<close>
  The loop is a recursion over the remaining codecs with the running index \<open>i\<close> and the
  list built so far; integer division by an empty codec list raises ZeroDivisionError.
\<close>

fun partition_loop ::
  "nat \<Rightarrow> 'c list \<Rightarrow> nat \<Rightarrow> ('c, 'a) codec list \<Rightarrow> 'a tensor3 list \<Rightarrow> 'a tensor3 list res" where
  "partition_loop partition_size truth_mel i [] proj = Inr proj"
| "partition_loop partition_size truth_mel i (q # qs) proj =
     (let mel_partition = slice_channels truth_mel (i * partition_size) ((i + 1) * partition_size)
      in and_then (q mel_partition) (\<lambda>p.
           partition_loop partition_size truth_mel (i + 1) qs (proj @ [p])))"

definition multi_vqvae_codes :: "('c, 'a) codec list \<Rightarrow> 'c list \<Rightarrow> 'a tensor3 res" where
  "multi_vqvae_codes quantizers truth_mel =
     (if length quantizers = 0 then Inl ZeroDivisionError
      else
        (let partition_size = length truth_mel div length quantizers in
         and_then (partition_loop partition_size truth_mel 0 quantizers []) cat_last))"

text \<open>
  \<^verbatim>\<open>
  diff = self.diff(x, timesteps, codes=proj, conditioning_input=conditioning_input,
                   conditioning_free=conditioning_free)
  return diff
  \<close>
  The wrapped network is the parameter \<open>diff\<close>, called with the keyword arguments in the
  order (x, timesteps, codes, conditioning_input, conditioning_free).
\<close>

definition multi_vqvae_forward ::
  "('x \<Rightarrow> 'ts \<Rightarrow> 'a tensor3 option \<Rightarrow> 'ci option \<Rightarrow> bool \<Rightarrow> 'o res)
   \<Rightarrow> ('c, 'a) codec list \<Rightarrow> 'x \<Rightarrow> 'ts \<Rightarrow> 'c list \<Rightarrow> 'ci option \<Rightarrow> bool \<Rightarrow> 'o res" where
  "multi_vqvae_forward diff quantizers x timesteps truth_mel conditioning_input conditioning_free =
     and_then (multi_vqvae_codes quantizers truth_mel) (\<lambda>proj.
       diff x timesteps (Some proj) conditioning_input conditioning_free)"

text \<open>
  The band of codec \<open>i\<close> as the loop computes it, and the list of results of applying
  each codec to its band, stopping at the first codec that raises.
\<close>

definition band :: "'c list \<Rightarrow> nat \<Rightarrow> nat \<Rightarrow> 'c list" where
  "band truth_mel n i =
     slice_channels truth_mel (i * (length truth_mel div n)) ((i + 1) * (length truth_mel div n))"

fun res_all :: "'a res list \<Rightarrow> 'a list res" where
  "res_all [] = Inr []"
| "res_all (r # rs) = and_then r (\<lambda>v. and_then (res_all rs) (\<lambda>vs. Inr (v # vs)))"

text \<open>
  A codec for concrete runs: its projection has batch size one and one position, whose
  feature vector is the band itself.
\<close>

definition unit_codec :: "(nat, nat) codec" where
  "unit_codec mel_partition = Inr [[mel_partition]]"

section \<open>Tensors and the tensor operations the model calls\<close>

text \<open>
  A tensor is its shape together with the value at every index (a list of positions, one
  per axis). Only the values at the indices inside the shape mean anything. Values are
  real numbers: rounding, infinities and NaN of the machine formats are not modelled.
\<close>

record 'a tensor =
  shape :: "nat list"
  entry :: "nat list \<Rightarrow> 'a"

type_synonym T = "real tensor"

definition valid_index :: "nat list \<Rightarrow> nat list \<Rightarrow> bool" where
  "valid_index shp idx = list_all2 (\<lambda>i d. i < d) idx shp"

text \<open>Two tensors are the same tensor when they agree on the shape and inside it.\<close>

definition tensor_eq :: "'a tensor \<Rightarrow> 'a tensor \<Rightarrow> bool" where
  "tensor_eq a b = (shape a = shape b \<and> (\<forall>idx. valid_index (shape a) idx \<longrightarrow> entry a idx = entry b idx))"

text \<open>\<open>t.shape[i]\<close>, with Python's negative indices and its IndexError.\<close>

definition size_at :: "'a tensor \<Rightarrow> int \<Rightarrow> nat res" where
  "size_at t i =
     (if 0 \<le> i \<and> i < int (length (shape t)) then Inr (shape t ! nat i)
      else if i < 0 \<and> - i \<le> int (length (shape t))
      then Inr (shape t ! nat (int (length (shape t)) + i))
      else Inl IndexError)"

text \<open>
  \<open>t.permute(0,2,1)\<close>: three axes are named, so the tensor must have three.
\<close>

definition permute021 :: "'a tensor \<Rightarrow> 'a tensor res" where
  "permute021 t =
     (case shape t of
        [a, b, c] \<Rightarrow> Inr \<lparr>shape = [a, c, b], entry = (\<lambda>idx. entry t [idx ! 0, idx ! 2, idx ! 1])\<rparr>
      | _ \<Rightarrow> Inl RuntimeError)"

text \<open>
  \<open>t.repeat(*reps)\<close>: there must be at least as many repeat counts as axes; missing
  leading axes count as size one; axis \<open>k\<close> of the result has size \<open>shape[k] * reps[k]\<close> and
  repeats the tensor along it.
\<close>

definition repeat :: "'a tensor \<Rightarrow> nat list \<Rightarrow> 'a tensor res" where
  "repeat t reps =
     (if length reps < length (shape t) then Inl RuntimeError
      else
        (let lead = length reps - length (shape t);
             padded = replicate lead 1 @ shape t
         in Inr \<lparr>shape = map2 (*) padded reps,
                 entry = (\<lambda>idx. entry t (drop lead (map2 (\<lambda>i d. i mod d) idx padded)))\<rparr>))"

text \<open>
  Broadcasting: shapes are aligned at the last axis, a missing axis counts as size one, and
  two sizes are compatible when they are equal or one of them is one. An operand is read at
  position zero along every axis on which it has size one.
\<close>

fun broadcast_rev :: "nat list \<Rightarrow> nat list \<Rightarrow> nat list option" where
  "broadcast_rev [] ys = Some ys"
| "broadcast_rev xs [] = Some xs"
| "broadcast_rev (x # xs) (y # ys) =
     (if x = y \<or> y = 1 then map_option ((#) x) (broadcast_rev xs ys)
      else if x = 1 then map_option ((#) y) (broadcast_rev xs ys)
      else None)"

definition broadcast_shapes :: "nat list \<Rightarrow> nat list \<Rightarrow> nat list option" where
  "broadcast_shapes s1 s2 = map_option rev (broadcast_rev (rev s1) (rev s2))"

definition bindex :: "nat list \<Rightarrow> nat list \<Rightarrow> nat list" where
  "bindex shp idx =
     map2 (\<lambda>d i. if d = 1 then 0 else i) shp (drop (length idx - length shp) idx)"

text \<open>\<open>a + b\<close> on tensors.\<close>

definition add :: "T \<Rightarrow> T \<Rightarrow> T res" where
  "add a b =
     (case broadcast_shapes (shape a) (shape b) of
        None \<Rightarrow> Inl RuntimeError
      | Some s \<Rightarrow>
          Inr \<lparr>shape = s,
               entry = (\<lambda>idx. entry a (bindex (shape a) idx) + entry b (bindex (shape b) idx))\<rparr>)"

text \<open>\<open>t + c\<close> for a number \<open>c\<close>.\<close>

definition add_scalar :: "T \<Rightarrow> real \<Rightarrow> T" where
  "add_scalar t c = \<lparr>shape = shape t, entry = (\<lambda>idx. entry t idx + c)\<rparr>"

text \<open>\<open>t < c\<close> for a number \<open>c\<close>: a tensor of truth values.\<close>

definition lt_scalar :: "T \<Rightarrow> real \<Rightarrow> bool tensor" where
  "lt_scalar t c = \<lparr>shape = shape t, entry = (\<lambda>idx. entry t idx < c)\<rparr>"

text \<open>\<open>torch.where(cond, a, b)\<close>, the three operands broadcast together.\<close>

definition torch_where :: "bool tensor \<Rightarrow> 'a tensor \<Rightarrow> 'a tensor \<Rightarrow> 'a tensor res" where
  "torch_where cond a b =
     (case broadcast_shapes (shape a) (shape b) of
        None \<Rightarrow> Inl RuntimeError
      | Some s1 \<Rightarrow>
          (case broadcast_shapes (shape cond) s1 of
             None \<Rightarrow> Inl RuntimeError
           | Some s \<Rightarrow>
               Inr \<lparr>shape = s,
                    entry = (\<lambda>idx. if entry cond (bindex (shape cond) idx)
                                then entry a (bindex (shape a) idx)
                                else entry b (bindex (shape b) idx))\<rparr>))"

text \<open>
  \<open>torch.cat([a, b], dim=-1)\<close>: both tensors have at least one axis and agree on all axes
  but the last; the result holds \<open>a\<close> and then \<open>b\<close> along the last axis.
\<close>

definition cat2 :: "'a tensor \<Rightarrow> 'a tensor \<Rightarrow> 'a tensor res" where
  "cat2 a b =
     (if shape a \<noteq> [] \<and> shape b \<noteq> [] \<and> butlast (shape a) = butlast (shape b)
      then Inr \<lparr>shape = butlast (shape a) @ [last (shape a) + last (shape b)],
                entry = (\<lambda>idx. if last idx < last (shape a) then entry a idx
                            else entry b (butlast idx @ [last idx - last (shape a)]))\<rparr>
      else Inl RuntimeError)"

text \<open>\<open>h[:, :, n:]\<close> on a tensor of three axes or more: the last axis from position \<open>n\<close> on.\<close>

definition slice_from :: "'a tensor \<Rightarrow> nat \<Rightarrow> 'a tensor res" where
  "slice_from h n =
     (if length (shape h) < 3 then Inl IndexError
      else Inr \<lparr>shape = butlast (shape h) @ [last (shape h) - n],
                entry = (\<lambda>idx. entry h (butlast idx @ [last idx + n]))\<rparr>)"

text \<open>
  \<open>F.interpolate(t, size=n, mode='nearest')\<close> on a tensor (batch, channels, length):
  both lengths must be positive, and position \<open>j\<close> of the result reads one position of the
  input, the same for every batch element and channel. The library computes that position
  as the floor of \<open>j\<close> times the ratio of the lengths in single-precision floating point,
  which is not the exact quotient, and caps it at the last position. The floating-point
  part is the parameter \<open>src\<close>, a function of the input length, the output length and
  \<open>j\<close>; the cap is exact.
\<close>

definition nearest_index :: "(nat \<Rightarrow> nat \<Rightarrow> nat \<Rightarrow> nat) \<Rightarrow> nat \<Rightarrow> nat \<Rightarrow> nat \<Rightarrow> nat" where
  "nearest_index src len n j = min (src len n j) (len - 1)"

definition interpolate_nearest ::
  "(nat \<Rightarrow> nat \<Rightarrow> nat \<Rightarrow> nat) \<Rightarrow> 'a tensor \<Rightarrow> nat \<Rightarrow> 'a tensor res" where
  "interpolate_nearest src t n =
     (case shape t of
        [b, c, len] \<Rightarrow>
          if 0 < len \<and> 0 < n
          then Inr \<lparr>shape = [b, c, n],
                    entry = (\<lambda>idx. entry t [idx ! 0, idx ! 1, nearest_index src len n (idx ! 2)])\<rparr>
          else Inl RuntimeError
      | _ \<Rightarrow> Inl RuntimeError)"

text \<open>
  \<open>p.mean()\<close>: the sum of all values over their number (the quotient is HOL's, zero for
  an empty tensor).
\<close>

definition all_indices :: "nat list \<Rightarrow> nat list list" where
  "all_indices shp = product_lists (map (\<lambda>d. [0..<d]) shp)"

definition mean :: "T \<Rightarrow> real" where
  "mean t = sum_list (map (entry t) (all_indices (shape t))) / real (prod_list (shape t))"

text \<open>An elementwise function, such as an activation, keeps the shape.\<close>

definition pointwise :: "('a \<Rightarrow> 'b) \<Rightarrow> 'a tensor \<Rightarrow> 'b tensor" where
  "pointwise f t = \<lparr>shape = shape t, entry = (\<lambda>idx. f (entry t idx))\<rparr>"

definition silu :: "real \<Rightarrow> real" where
  "silu v = v / (1 + exp (- v))"

section \<open>Library layers with weights\<close>

text \<open>
  \<open>nn.Linear\<close>: the weight has one row per output feature; the bias may be absent. The
  layer acts on the last axis, which must have \<open>in_features\<close> entries.
\<close>

record linear_layer =
  l_in :: nat
  l_out :: nat
  l_weight :: "nat \<Rightarrow> nat \<Rightarrow> real"
  l_bias :: "(nat \<Rightarrow> real) option"

definition linear :: "linear_layer \<Rightarrow> T \<Rightarrow> T res" where
  "linear l x =
     (if shape x \<noteq> [] \<and> last (shape x) = l_in l
      then Inr \<lparr>shape = butlast (shape x) @ [l_out l],
                entry = (\<lambda>idx. (\<Sum>i\<leftarrow>[0..<l_in l]. l_weight l (last idx) i * entry x (butlast idx @ [i]))
                             + (case l_bias l of None \<Rightarrow> 0 | Some b \<Rightarrow> b (last idx)))\<rparr>
      else Inl RuntimeError)"

text \<open>
  \<open>nn.Conv1d\<close> with stride one and symmetric zero padding, on an input
  (batch, channels, length): the channel count must be \<open>in_channels\<close> and the padded length
  at least the kernel size. An input without the batch axis is rejected: every call in
  the model is followed or preceded by \<open>permute(0,2,1)\<close>, which rejects it as well.
\<close>

record conv1d_layer =
  c_in :: nat
  c_out :: nat
  ksize :: nat
  pad :: nat
  c_weight :: "nat \<Rightarrow> nat \<Rightarrow> nat \<Rightarrow> real"
  c_bias :: "(nat \<Rightarrow> real) option"

definition padded :: "nat \<Rightarrow> T \<Rightarrow> nat \<Rightarrow> nat \<Rightarrow> nat \<Rightarrow> real" where
  "padded p x b c j =
     (if p \<le> j \<and> j < p + shape x ! 2 then entry x [b, c, j - p] else 0)"

definition conv1d :: "conv1d_layer \<Rightarrow> T \<Rightarrow> T res" where
  "conv1d l x =
     (case shape x of
        [b, c, len] \<Rightarrow>
          if c = c_in l \<and> ksize l \<le> len + 2 * pad l
          then Inr \<lparr>shape = [b, c_out l, len + 2 * pad l - ksize l + 1],
                    entry = (\<lambda>idx.
                      (\<Sum>ci\<leftarrow>[0..<c_in l]. \<Sum>k\<leftarrow>[0..<ksize l].
                          c_weight l (idx ! 1) ci k * padded (pad l) x (idx ! 0) ci (idx ! 2 + k))
                      + (case c_bias l of None \<Rightarrow> 0 | Some bs \<Rightarrow> bs (idx ! 1)))\<rparr>
          else Inl RuntimeError
      | _ \<Rightarrow> Inl RuntimeError)"

text \<open>
  Modelled from the spec: the attention, the encoder, the normalisations and the rotary
  table are classes of other files of the repository. Such a module is known here by the
  shape it accepts and returns; its values are a function of its inputs that the model
  does not look into. \<open>shaped rule f\<close> is the module with shape rule \<open>rule\<close> and values
  \<open>f\<close>: it raises on the shapes the rule rejects.
\<close>

definition shaped ::
  "(nat list \<Rightarrow> nat list option) \<Rightarrow> (T \<Rightarrow> nat list \<Rightarrow> real) \<Rightarrow> T \<Rightarrow> T res" where
  "shaped rule f x =
     (case rule (shape x) of
        None \<Rightarrow> Inl RuntimeError
      | Some s \<Rightarrow> Inr \<lparr>shape = s, entry = f x\<rparr>)"

definition shaped2 ::
  "(nat list \<Rightarrow> nat list \<Rightarrow> nat list option) \<Rightarrow> (T \<Rightarrow> T \<Rightarrow> nat list \<Rightarrow> real)
   \<Rightarrow> T \<Rightarrow> T \<Rightarrow> T res" where
  "shaped2 rule f x y =
     (case rule (shape x) (shape y) of
        None \<Rightarrow> Inl RuntimeError
      | Some s \<Rightarrow> Inr \<lparr>shape = s, entry = f x y\<rparr>)"

text \<open>An attribute that the constructor may not have created.\<close>

definition attr :: "'a option \<Rightarrow> 'a res" where
  "attr a = (case a of None \<Rightarrow> Inl AttributeError | Some v \<Rightarrow> Inr v)"

section \<open>The blocks and the denoising network\<close>

text \<open>
  The functions of the library that the forward passes call and that are not layers of
  the model: the activation \<open>F.gelu\<close>, applied to every entry; \<open>timestep_embedding\<close> of the
  diffusion utilities; and the floating-point index computation of the nearest-neighbour
  interpolation (input length, output length, output position).
\<close>

record functional =
  gelu :: "real \<Rightarrow> real"
  timestep_embedding_values :: "T \<Rightarrow> nat \<Rightarrow> nat list \<Rightarrow> real"
  nearest_source :: "nat \<Rightarrow> nat \<Rightarrow> nat \<Rightarrow> nat"

text \<open>
  Modelled from the spec: \<open>timestep_embedding\<close> is a function of the diffusion utilities,
  "a fixed sinusoidal function of the integer timestep". It takes one timestep per batch
  element and returns one embedding vector of \<open>dim\<close> entries for each.
\<close>

definition timestep_embedding :: "functional \<Rightarrow> T \<Rightarrow> nat \<Rightarrow> T res" where
  "timestep_embedding F timesteps d =
     shaped (\<lambda>s. if length s = 1 then Some (s @ [d]) else None)
            (\<lambda>t. timestep_embedding_values F t d) timesteps"

subsection \<open>SubBlock\<close>

record SubBlock =
  attn :: "T \<Rightarrow> T \<Rightarrow> T res"
  attnorm :: "T \<Rightarrow> T res"
  ff :: conv1d_layer
  ffnorm :: "T \<Rightarrow> T res"

text \<open>
  \<^verbatim>\<open>
  def forward(self, x, rotary_emb):
      ah, _, _, _ = checkpoint(self.attn, x, None, None, None, None, None, rotary_emb)
      ah = F.gelu(self.attnorm(ah))
      h = torch.cat([ah, x], dim=-1)
      hf = checkpoint(self.ff, h.permute(0,2,1)).permute(0,2,1)
      hf = F.gelu(self.ffnorm(hf))
      h = torch.cat([h, hf], dim=-1)
      return h
  \<close>
  \<open>checkpoint(f, args)\<close> returns what \<open>f(args)\<close> returns; \<open>attn\<close> stands for the first
  component of the attention's result.
\<close>

definition SubBlock_forward :: "functional \<Rightarrow> SubBlock \<Rightarrow> T \<Rightarrow> T \<Rightarrow> T res" where
  "SubBlock_forward F sb x rotary_emb =
     and_then (attn sb x rotary_emb) (\<lambda>ah.
     and_then (attnorm sb ah) (\<lambda>ah.
     and_then (cat2 (pointwise (gelu F) ah) x) (\<lambda>h.
     and_then (permute021 h) (\<lambda>hp.
     and_then (conv1d (ff sb) hp) (\<lambda>hf.
     and_then (permute021 hf) (\<lambda>hf.
     and_then (ffnorm sb hf) (\<lambda>hf.
       cat2 h (pointwise (gelu F) hf))))))))"

subsection \<open>ConcatAttentionBlock\<close>

record ConcatAttentionBlock =
  prenorm :: "T \<Rightarrow> T \<Rightarrow> T res"
  block1 :: SubBlock
  block2 :: SubBlock
  cab_out :: linear_layer

text \<open>
  \<^verbatim>\<open>
  def forward(self, x, timestep_emb, rotary_emb):
      h = self.prenorm(x, norm_scale_shift_inp=timestep_emb)
      h = self.block1(h, rotary_emb)
      h = self.block2(h, rotary_emb)
      h = self.out(h[:,:,x.shape[-1]:])
      return h + x
  \<close>
  The field \<open>cab_out\<close> is the attribute \<open>out\<close> of the block.
\<close>

definition ConcatAttentionBlock_forward ::
  "functional \<Rightarrow> ConcatAttentionBlock \<Rightarrow> T \<Rightarrow> T \<Rightarrow> T \<Rightarrow> T res" where
  "ConcatAttentionBlock_forward F blk x timestep_emb rotary_emb =
     and_then (prenorm blk x timestep_emb) (\<lambda>h.
     and_then (SubBlock_forward F (block1 blk) h rotary_emb) (\<lambda>h.
     and_then (SubBlock_forward F (block2 blk) h rotary_emb) (\<lambda>h.
     and_then (size_at x (- 1)) (\<lambda>n.
     and_then (slice_from h n) (\<lambda>hs.
     and_then (linear (cab_out blk) hs) (\<lambda>h.
       add h x))))))"

subsection \<open>TransformerDiffusion\<close>

text \<open>
  \<open>time_embed\<close> is linear, SiLU, linear; \<open>out\<close> is the group normalisation, SiLU and the
  last convolution.
\<close>

record time_embed_seq =
  te_linear1 :: linear_layer
  te_linear2 :: linear_layer

definition time_embed_forward :: "time_embed_seq \<Rightarrow> T \<Rightarrow> T res" where
  "time_embed_forward te e =
     and_then (linear (te_linear1 te) e) (\<lambda>h. linear (te_linear2 te) (pointwise silu h))"

record out_seq =
  out_norm :: "T \<Rightarrow> T res"
  out_conv :: conv1d_layer

definition out_forward :: "out_seq \<Rightarrow> T \<Rightarrow> T res" where
  "out_forward os x =
     and_then (out_norm os x) (\<lambda>h. conv1d (out_conv os) (pointwise silu h))"

text \<open>
  The attributes of the model. The two converters exist when \<open>ar_prior\<close> is false, the two
  prior modules when it is true. \<open>training\<close> is the mode flag of the module.
\<close>

record TransformerDiffusion =
  in_channels :: nat
  model_channels :: nat
  prenet_channels :: nat
  time_embed_dim :: nat
  out_channels :: nat
  dropout :: real
  unconditioned_percentage :: real
  enable_fp16 :: bool
  inp_block :: conv1d_layer
  time_embed :: time_embed_seq
  ar_prior :: bool
  ar_input :: "linear_layer option"
  ar_prior_intg :: "(T \<Rightarrow> T res) option"
  input_converter :: "linear_layer option"
  code_converter :: "(T \<Rightarrow> T res) option"
  unconditioned_embedding :: T
  rotary_embeddings :: "nat \<Rightarrow> T res"
  intg :: linear_layer
  layers :: "ConcatAttentionBlock list"
  out :: out_seq
  training :: bool
  param_state :: param_store

text \<open>\<open>torch.rand(shape)\<close>, the draws of this call being the function \<open>u\<close> of the index.\<close>

definition torch_rand :: "(nat list \<Rightarrow> real) \<Rightarrow> nat list \<Rightarrow> T" where
  "torch_rand u shp = \<lparr>shape = shp, entry = u\<rparr>"

text \<open>
  \<^verbatim>\<open>
  def timestep_independent(self, prior, expected_seq_len):
      code_emb = self.ar_input(prior) if self.ar_prior else self.input_converter(prior)
      code_emb = self.ar_prior_intg(code_emb) if self.ar_prior else self.code_converter(code_emb)
      if self.training and self.unconditioned_percentage > 0:
          unconditioned_batches = torch.rand((code_emb.shape[0], 1, 1),
                                             device=code_emb.device) < self.unconditioned_percentage
          code_emb = torch.where(unconditioned_batches,
                                 self.unconditioned_embedding.repeat(prior.shape[0], 1, 1), code_emb)
      expanded_code_emb = F.interpolate(code_emb.permute(0,2,1), size=expected_seq_len,
                                        mode='nearest').permute(0,2,1)
      return expanded_code_emb
  \<close>
  A linear layer called on \<open>None\<close> raises TypeError.
\<close>

definition mask_code_emb :: "TransformerDiffusion \<Rightarrow> (nat list \<Rightarrow> real) \<Rightarrow> T \<Rightarrow> T \<Rightarrow> T res" where
  "mask_code_emb net u prior code_emb =
     (if training net \<and> unconditioned_percentage net > 0 then
        and_then (size_at code_emb 0) (\<lambda>b.
          (let unconditioned_batches =
                 lt_scalar (torch_rand u [b, 1, 1]) (unconditioned_percentage net)
           in and_then (size_at prior 0) (\<lambda>pb.
              and_then (repeat (unconditioned_embedding net) [pb, 1, 1]) (\<lambda>ue.
                torch_where unconditioned_batches ue code_emb))))
      else Inr code_emb)"

definition timestep_independent ::
  "TransformerDiffusion \<Rightarrow> functional \<Rightarrow> (nat list \<Rightarrow> real) \<Rightarrow> T option \<Rightarrow> nat \<Rightarrow> T res" where
  "timestep_independent net F u prior expected_seq_len =
     and_then (attr (if ar_prior net then ar_input net else input_converter net)) (\<lambda>conv.
     and_then (case prior of None \<Rightarrow> Inl TypeError | Some p \<Rightarrow> Inr p) (\<lambda>p.
     and_then (linear conv p) (\<lambda>code_emb.
     and_then (attr (if ar_prior net then ar_prior_intg net else code_converter net)) (\<lambda>enc.
     and_then (enc code_emb) (\<lambda>code_emb.
     and_then (mask_code_emb net u p code_emb) (\<lambda>code_emb.
     and_then (permute021 code_emb) (\<lambda>c.
     and_then (interpolate_nearest (nearest_source F) c expected_seq_len) (\<lambda>c.
       permute021 c))))))))"

text \<open>
  The loop \<open>for layer in self.layers: x = checkpoint(layer, x, blk_emb, rotary_pos_emb)\<close>.
\<close>

fun run_layers :: "functional \<Rightarrow> ConcatAttentionBlock list \<Rightarrow> T \<Rightarrow> T \<Rightarrow> T \<Rightarrow> T res" where
  "run_layers F [] x blk_emb rotary_pos_emb = Inr x"
| "run_layers F (layer # rest) x blk_emb rotary_pos_emb =
     and_then (ConcatAttentionBlock_forward F layer x blk_emb rotary_pos_emb) (\<lambda>x'.
       run_layers F rest x' blk_emb rotary_pos_emb)"

text \<open>
  The first statement of \<open>forward\<close>:
  \<^verbatim>\<open>
  if precomputed_code_embeddings is not None:
      assert codes is None and conditioning_input is None, "..."
  \<close>
  (assertions are taken as enabled).
\<close>

definition forward_guard :: "'a option \<Rightarrow> 'b option \<Rightarrow> 'c option \<Rightarrow> unit res" where
  "forward_guard codes conditioning_input precomputed_code_embeddings =
     (if precomputed_code_embeddings \<noteq> None
      then (if codes = None \<and> conditioning_input = None then Inr () else Inl AssertionError)
      else Inr ())"

text \<open>
  The choice of the code embedding and the list \<open>unused_params\<close> built beside it:
  \<^verbatim>\<open>
  unused_params = []
  if conditioning_free:
      code_emb = self.unconditioned_embedding.repeat(x.shape[0], x.shape[-1], 1)
  else:
      if precomputed_code_embeddings is not None:
          code_emb = precomputed_code_embeddings
      else:
          code_emb = self.timestep_independent(codes, x.shape[-1])
      unused_params.append(self.unconditioned_embedding)
  \<close>
  An entry of the list is a parameter tensor, kept here with the name of its attribute.
\<close>

definition forward_unused_params ::
  "TransformerDiffusion \<Rightarrow> bool \<Rightarrow> (submodule \<times> T) list" where
  "forward_unused_params net conditioning_free =
     (if conditioning_free then []
      else [] @ [(M_unconditioned_embedding, unconditioned_embedding net)])"

definition forward_code_emb ::
  "TransformerDiffusion \<Rightarrow> functional \<Rightarrow> (nat list \<Rightarrow> real) \<Rightarrow> T \<Rightarrow> T option \<Rightarrow> T option
   \<Rightarrow> bool \<Rightarrow> T res" where
  "forward_code_emb net F u x codes precomputed_code_embeddings conditioning_free =
     (if conditioning_free then
        and_then (size_at x 0) (\<lambda>b.
        and_then (size_at x (- 1)) (\<lambda>n.
          repeat (unconditioned_embedding net) [b, n, 1]))
      else
        (case precomputed_code_embeddings of
           Some e \<Rightarrow> Inr e
         | None \<Rightarrow> and_then (size_at x (- 1)) (\<lambda>n. timestep_independent net F u codes n)))"

text \<open>
  The rest of \<open>forward\<close>:
  \<^verbatim>\<open>
  with torch.autocast(x.device.type, enabled=self.enable_fp16):
      blk_emb = self.time_embed(timestep_embedding(timesteps, self.time_embed_dim))
      x = self.inp_block(x).permute(0,2,1)
      rotary_pos_emb = self.rotary_embeddings(x.shape[1], x.device)
      x = self.intg(torch.cat([x, code_emb], dim=-1))
      for layer in self.layers:
          x = checkpoint(layer, x, blk_emb, rotary_pos_emb)
  x = x.float().permute(0,2,1)
  out = self.out(x)
  extraneous_addition = 0
  for p in unused_params:
      extraneous_addition = extraneous_addition + p.mean()
  out = out + extraneous_addition * 0
  return out
  \<close>
  Autocast and \<open>float()\<close> change the number format only.
\<close>

definition extraneous_addition :: "(submodule \<times> T) list \<Rightarrow> real" where
  "extraneous_addition unused_params = fold (\<lambda>p acc. acc + mean (snd p)) unused_params 0"

definition forward_trunk ::
  "TransformerDiffusion \<Rightarrow> functional \<Rightarrow> T \<Rightarrow> T \<Rightarrow> T \<Rightarrow> T res" where
  "forward_trunk net F x timesteps code_emb =
     and_then (timestep_embedding F timesteps (time_embed_dim net)) (\<lambda>e.
     and_then (time_embed_forward (time_embed net) e) (\<lambda>blk_emb.
     and_then (conv1d (inp_block net) x) (\<lambda>x1.
     and_then (permute021 x1) (\<lambda>x2.
     and_then (size_at x2 1) (\<lambda>n.
     and_then (rotary_embeddings net n) (\<lambda>rotary_pos_emb.
     and_then (cat2 x2 code_emb) (\<lambda>xc.
     and_then (linear (intg net) xc) (\<lambda>x3.
     and_then (run_layers F (layers net) x3 blk_emb rotary_pos_emb) (\<lambda>x4.
     and_then (permute021 x4) (\<lambda>x5.
       out_forward (out net) x5))))))))))"

definition forward ::
  "TransformerDiffusion \<Rightarrow> functional \<Rightarrow> (nat list \<Rightarrow> real) \<Rightarrow> T \<Rightarrow> T
   \<Rightarrow> T option \<Rightarrow> T option \<Rightarrow> T option \<Rightarrow> bool \<Rightarrow> T res" where
  "forward net F u x timesteps codes conditioning_input precomputed_code_embeddings
           conditioning_free =
     and_then (forward_guard codes conditioning_input precomputed_code_embeddings) (\<lambda>_.
     and_then (forward_code_emb net F u x codes precomputed_code_embeddings conditioning_free)
       (\<lambda>code_emb.
     and_then (forward_trunk net F x timesteps code_emb) (\<lambda>out.
       Inr (add_scalar out
              (extraneous_addition (forward_unused_params net conditioning_free) * 0)))))"

text \<open>
  The attributes whose parameters process the conditioning input, and those among them
  that the choice of the code embedding above reads or calls in one call of \<open>forward\<close>:
  the unconditioned embedding when \<open>conditioning_free\<close> is set; nothing when the embeddings
  are precomputed; otherwise the two converters (or the two prior modules) of
  \<open>timestep_independent\<close>, and the unconditioned embedding when the random mask is drawn.
\<close>

definition converter_modules :: "TransformerDiffusion \<Rightarrow> submodule list" where
  "converter_modules net =
     (if ar_prior net then [M_ar_input, M_ar_prior_intg] else [M_input_converter, M_code_converter])"

definition input_processing_modules :: "TransformerDiffusion \<Rightarrow> submodule list" where
  "input_processing_modules net = converter_modules net @ [M_unconditioned_embedding]"

definition active_code_modules ::
  "TransformerDiffusion \<Rightarrow> T option \<Rightarrow> bool \<Rightarrow> submodule list" where
  "active_code_modules net precomputed_code_embeddings conditioning_free =
     (if conditioning_free then [M_unconditioned_embedding]
      else
        (case precomputed_code_embeddings of
           Some _ \<Rightarrow> []
         | None \<Rightarrow>
             converter_modules net
             @ (if training net \<and> unconditioned_percentage net > 0
                then [M_unconditioned_embedding] else [])))"

text \<open>
  The requirement on \<open>unused_params\<close>: every attribute that processes the conditioning
  input and is not read or called in this call has its parameters in the list, and so in
  the zero-weighted term added to the output.
\<close>

definition unused_params_cover :: "TransformerDiffusion \<Rightarrow> T option \<Rightarrow> bool \<Rightarrow> bool" where
  "unused_params_cover net precomputed_code_embeddings conditioning_free =
     list_all
       (\<lambda>m. m \<in> set (active_code_modules net precomputed_code_embeddings conditioning_free)
            \<or> m \<in> set (map fst (forward_unused_params net conditioning_free)))
       (input_processing_modules net)"

section \<open>The constructors\<close>

text \<open>
  What the constructors take from outside the model: the initial value of every weight
  (drawn at random by the library), and the values that the modules of other files
  compute. A weight or module is named by its attribute path and, inside the stack of
  blocks, the number of its block.
\<close>

record init_env =
  initial :: "string \<Rightarrow> nat \<Rightarrow> nat list \<Rightarrow> real"
  module1 :: "string \<Rightarrow> nat \<Rightarrow> T \<Rightarrow> nat list \<Rightarrow> real"
  module2 :: "string \<Rightarrow> nat \<Rightarrow> T \<Rightarrow> T \<Rightarrow> nat list \<Rightarrow> real"
  rotary_values :: "nat \<Rightarrow> nat list \<Rightarrow> real"
  n_params :: "submodule \<Rightarrow> nat"

definition nn_Linear :: "init_env \<Rightarrow> string \<Rightarrow> nat \<Rightarrow> nat \<Rightarrow> nat \<Rightarrow> bool \<Rightarrow> linear_layer" where
  "nn_Linear env name i n_in n_out with_bias =
     \<lparr>l_in = n_in, l_out = n_out,
      l_weight = (\<lambda>r k. initial env (name @ ''.weight'') i [r, k]),
      l_bias = (if with_bias then Some (\<lambda>r. initial env (name @ ''.bias'') i [r]) else None)\<rparr>"

definition nn_Conv1d ::
  "init_env \<Rightarrow> string \<Rightarrow> nat \<Rightarrow> nat \<Rightarrow> nat \<Rightarrow> nat \<Rightarrow> nat \<Rightarrow> conv1d_layer" where
  "nn_Conv1d env name i n_in n_out kernel_size padding =
     \<lparr>c_in = n_in, c_out = n_out, ksize = kernel_size, pad = padding,
      c_weight = (\<lambda>r c k. initial env (name @ ''.weight'') i [r, c, k]),
      c_bias = Some (\<lambda>r. initial env (name @ ''.bias'') i [r])\<rparr>"

text \<open>\<open>self.out.weight.data.zero_()\<close> on a linear layer.\<close>

definition zero_weight :: "linear_layer \<Rightarrow> linear_layer" where
  "zero_weight l = l\<lparr>l_weight := (\<lambda>_ _. 0)\<rparr>"

text \<open>
  Modelled from the spec: \<open>zero_module\<close> of the diffusion utilities is not in this file;
  the final convolution is "zero-initialized", so every parameter of the module it is
  given, weight and bias, is set to zero.
\<close>

definition zero_module :: "conv1d_layer \<Rightarrow> conv1d_layer" where
  "zero_module l = l\<lparr>c_weight := (\<lambda>_ _ _. 0), c_bias := map_option (\<lambda>_ _. 0) (c_bias l)\<rparr>"

text \<open>
  Modelled from the spec: the shapes that the modules of other files accept and return,
  as the constructor calls below size them. A layer normalisation over a last axis of \<open>d\<close>
  entries keeps the shape; the attention takes a (batch, sequence, \<open>inp\<close>) input to
  (batch, sequence, \<open>c\<close>); the encoder keeps a (batch, sequence, \<open>d\<close>) input's shape; the
  timestep-modulated normalisation keeps the shape of a (batch, sequence, \<open>trunk\<close>) input,
  given one embedding of \<open>te\<close> entries per batch element; the group normalisation keeps the
  shape of a (batch, \<open>ch\<close>, length) input; the rotary table exists for every length.
\<close>

definition layernorm_rule :: "nat \<Rightarrow> nat list \<Rightarrow> nat list option" where
  "layernorm_rule d s = (if s \<noteq> [] \<and> last s = d then Some s else None)"

definition attention_rule :: "nat \<Rightarrow> nat \<Rightarrow> nat list \<Rightarrow> nat list \<Rightarrow> nat list option" where
  "attention_rule inp c s rot = (if length s = 3 \<and> last s = inp then Some (butlast s @ [c]) else None)"

definition encoder_rule :: "nat \<Rightarrow> nat list \<Rightarrow> nat list option" where
  "encoder_rule d s = (if length s = 3 \<and> last s = d then Some s else None)"

definition prenorm_rule :: "nat \<Rightarrow> nat \<Rightarrow> nat list \<Rightarrow> nat list \<Rightarrow> nat list option" where
  "prenorm_rule trunk te s e =
     (if length s = 3 \<and> last s = trunk \<and> e = [hd s, te] then Some s else None)"

definition groupnorm_rule :: "nat \<Rightarrow> nat list \<Rightarrow> nat list option" where
  "groupnorm_rule ch s = (if length s = 3 \<and> s ! 1 = ch then Some s else None)"

text \<open>
  \<^verbatim>\<open>
  class SubBlock(nn.Module):
      def __init__(self, inp_dim, contraction_dim, heads, dropout):
          self.attn = Attention(inp_dim, out_dim=contraction_dim, heads=heads,
                                dim_head=contraction_dim//heads, causal=False, dropout=dropout)
          self.attnorm = nn.LayerNorm(contraction_dim)
          self.ff = nn.Conv1d(inp_dim+contraction_dim, contraction_dim, kernel_size=3, padding=1)
          self.ffnorm = nn.LayerNorm(contraction_dim)
  \<close>
\<close>

definition SubBlock_init :: "init_env \<Rightarrow> string \<Rightarrow> nat \<Rightarrow> nat \<Rightarrow> nat \<Rightarrow> SubBlock" where
  "SubBlock_init env name i inp_dim contraction_dim =
     \<lparr>attn = shaped2 (attention_rule inp_dim contraction_dim) (module2 env (name @ ''.attn'') i),
      attnorm = shaped (layernorm_rule contraction_dim) (module1 env (name @ ''.attnorm'') i),
      ff = nn_Conv1d env (name @ ''.ff'') i (inp_dim + contraction_dim) contraction_dim 3 1,
      ffnorm = shaped (layernorm_rule contraction_dim) (module1 env (name @ ''.ffnorm'') i)\<rparr>"

text \<open>
  \<^verbatim>\<open>
  class ConcatAttentionBlock(TimestepBlock):
      def __init__(self, trunk_dim, contraction_dim, time_embed_dim, heads, dropout):
          self.prenorm = RMSScaleShiftNorm(trunk_dim, embed_dim=time_embed_dim, bias=False)
          self.block1 = SubBlock(trunk_dim, contraction_dim, heads, dropout)
          self.block2 = SubBlock(trunk_dim+contraction_dim*2, contraction_dim, heads, dropout)
          self.out = nn.Linear(contraction_dim*4, trunk_dim, bias=False)
          self.out.weight.data.zero_()
  \<close>
\<close>

definition ConcatAttentionBlock_init ::
  "init_env \<Rightarrow> nat \<Rightarrow> nat \<Rightarrow> nat \<Rightarrow> nat \<Rightarrow> ConcatAttentionBlock" where
  "ConcatAttentionBlock_init env i trunk_dim contraction_dim time_embed_dim' =
     \<lparr>prenorm = shaped2 (prenorm_rule trunk_dim time_embed_dim') (module2 env ''prenorm'' i),
      block1 = SubBlock_init env ''block1'' i trunk_dim contraction_dim,
      block2 = SubBlock_init env ''block2'' i (trunk_dim + contraction_dim * 2) contraction_dim,
      cab_out = zero_weight (nn_Linear env ''out'' i (contraction_dim * 4) trunk_dim False)\<rparr>"

text \<open>The arguments of the constructor of TransformerDiffusion.\<close>

record kwargs =
  k_prenet_channels :: nat
  k_prenet_layers :: nat
  k_time_embed_dim :: nat
  k_model_channels :: nat
  k_contraction_dim :: nat
  k_num_layers :: nat
  k_in_channels :: nat
  k_rotary_emb_dim :: nat
  k_input_vec_dim :: nat
  k_out_channels :: nat
  k_num_heads :: nat
  k_dropout :: real
  k_use_fp16 :: bool
  k_ar_prior :: bool
  k_unconditioned_percentage :: real
  k_freeze_except_code_converters :: bool

definition default_kwargs :: kwargs where
  "default_kwargs =
     \<lparr>k_prenet_channels = 1024, k_prenet_layers = 3, k_time_embed_dim = 256,
      k_model_channels = 1024, k_contraction_dim = 256, k_num_layers = 8, k_in_channels = 256,
      k_rotary_emb_dim = 32, k_input_vec_dim = 1024, k_out_channels = 512, k_num_heads = 4,
      k_dropout = 0, k_use_fp16 = False, k_ar_prior = False,
      k_unconditioned_percentage = 1/10, k_freeze_except_code_converters = False\<rparr>"

text \<open>
  The constructor. It sets the attributes and builds the modules, and at the end freezes
  parameters (section on parameter freezing), which can raise; \<open>st\<close> is what the
  freezing leaves on the parameters. A new module is in training mode.
  \<open>conv_nd(1, cin, cout, 3, 1, 1)\<close> is a one-dimensional convolution with kernel 3,
  stride 1 and padding 1.
\<close>

definition TransformerDiffusion_modules ::
  "kwargs \<Rightarrow> init_env \<Rightarrow> param_store \<Rightarrow> TransformerDiffusion" where
  "TransformerDiffusion_modules kw env st =
         \<lparr>in_channels = k_in_channels kw,
          model_channels = k_model_channels kw,
          prenet_channels = k_prenet_channels kw,
          time_embed_dim = k_time_embed_dim kw,
          out_channels = k_out_channels kw,
          dropout = k_dropout kw,
          unconditioned_percentage = k_unconditioned_percentage kw,
          enable_fp16 = k_use_fp16 kw,
          inp_block = nn_Conv1d env ''inp_block'' 0 (k_in_channels kw) (k_prenet_channels kw) 3 1,
          time_embed =
            \<lparr>te_linear1 = nn_Linear env ''time_embed.0'' 0 (k_time_embed_dim kw) (k_time_embed_dim kw) True,
             te_linear2 = nn_Linear env ''time_embed.2'' 0 (k_time_embed_dim kw) (k_time_embed_dim kw) True\<rparr>,
          ar_prior = k_ar_prior kw,
          ar_input =
            (if k_ar_prior kw
             then Some (nn_Linear env ''ar_input'' 0 (k_input_vec_dim kw) (k_prenet_channels kw) True)
             else None),
          ar_prior_intg =
            (if k_ar_prior kw
             then Some (shaped (encoder_rule (k_prenet_channels kw)) (module1 env ''ar_prior_intg'' 0))
             else None),
          input_converter =
            (if k_ar_prior kw then None
             else Some (nn_Linear env ''input_converter'' 0 (k_input_vec_dim kw) (k_prenet_channels kw) True)),
          code_converter =
            (if k_ar_prior kw then None
             else Some (shaped (encoder_rule (k_prenet_channels kw)) (module1 env ''code_converter'' 0))),
          unconditioned_embedding =
            \<lparr>shape = [1, 1, k_prenet_channels kw],
             entry = initial env ''unconditioned_embedding'' 0\<rparr>,
          rotary_embeddings =
            (\<lambda>n. Inr \<lparr>shape = [n, k_rotary_emb_dim kw], entry = rotary_values env n\<rparr>),
          intg = nn_Linear env ''intg'' 0 (k_prenet_channels kw * 2) (k_model_channels kw) True,
          layers =
            map (\<lambda>i. ConcatAttentionBlock_init env i (k_model_channels kw) (k_contraction_dim kw)
                        (k_time_embed_dim kw))
                [0..<k_num_layers kw],
          out =
            \<lparr>out_norm = shaped (groupnorm_rule (k_model_channels kw)) (module1 env ''out.0'' 0),
             out_conv = zero_module
               (nn_Conv1d env ''out.2'' 0 (k_model_channels kw) (k_out_channels kw) 3 1)\<rparr>,
          training = True,
          param_state = st\<rparr>"

definition TransformerDiffusion_init :: "kwargs \<Rightarrow> init_env \<Rightarrow> TransformerDiffusion res" where
  "TransformerDiffusion_init kw env =
     and_then (init_param_store (n_params env) (k_ar_prior kw) (k_freeze_except_code_converters kw))
       (\<lambda>st. Inr (TransformerDiffusion_modules kw env st))"

text \<open>
  The architecture that the constructors give, whatever the weights are: the sizes of the
  layers and the shape rules of the modules. Training changes weights and values, never
  these.
\<close>

definition is_shaped :: "(nat list \<Rightarrow> nat list option) \<Rightarrow> (T \<Rightarrow> T res) \<Rightarrow> bool" where
  "is_shaped rule m = (\<exists>f. m = shaped rule f)"

definition is_shaped2 ::
  "(nat list \<Rightarrow> nat list \<Rightarrow> nat list option) \<Rightarrow> (T \<Rightarrow> T \<Rightarrow> T res) \<Rightarrow> bool" where
  "is_shaped2 rule m = (\<exists>f. m = shaped2 rule f)"

definition linear_sizes :: "linear_layer \<Rightarrow> nat \<Rightarrow> nat \<Rightarrow> bool" where
  "linear_sizes l n_in n_out = (l_in l = n_in \<and> l_out l = n_out)"

definition conv_sizes :: "conv1d_layer \<Rightarrow> nat \<Rightarrow> nat \<Rightarrow> nat \<Rightarrow> nat \<Rightarrow> bool" where
  "conv_sizes l n_in n_out kernel_size padding =
     (c_in l = n_in \<and> c_out l = n_out \<and> ksize l = kernel_size \<and> pad l = padding)"

definition SubBlock_sizes :: "nat \<Rightarrow> nat \<Rightarrow> SubBlock \<Rightarrow> bool" where
  "SubBlock_sizes inp_dim contraction_dim sb =
     (is_shaped2 (attention_rule inp_dim contraction_dim) (attn sb)
      \<and> is_shaped (layernorm_rule contraction_dim) (attnorm sb)
      \<and> conv_sizes (ff sb) (inp_dim + contraction_dim) contraction_dim 3 1
      \<and> is_shaped (layernorm_rule contraction_dim) (ffnorm sb))"

definition ConcatAttentionBlock_sizes :: "nat \<Rightarrow> nat \<Rightarrow> nat \<Rightarrow> ConcatAttentionBlock \<Rightarrow> bool" where
  "ConcatAttentionBlock_sizes trunk_dim contraction_dim te blk =
     (is_shaped2 (prenorm_rule trunk_dim te) (prenorm blk)
      \<and> SubBlock_sizes trunk_dim contraction_dim (block1 blk)
      \<and> SubBlock_sizes (trunk_dim + contraction_dim * 2) contraction_dim (block2 blk)
      \<and> linear_sizes (cab_out blk) (contraction_dim * 4) trunk_dim)"

definition converters_built :: "kwargs \<Rightarrow> TransformerDiffusion \<Rightarrow> bool" where
  "converters_built kw net =
     (if k_ar_prior kw
      then ar_prior net
           \<and> (case ar_input net of None \<Rightarrow> False
               | Some l \<Rightarrow> linear_sizes l (k_input_vec_dim kw) (k_prenet_channels kw))
           \<and> (case ar_prior_intg net of None \<Rightarrow> False
               | Some m \<Rightarrow> is_shaped (encoder_rule (k_prenet_channels kw)) m)
      else \<not> ar_prior net
           \<and> (case input_converter net of None \<Rightarrow> False
               | Some l \<Rightarrow> linear_sizes l (k_input_vec_dim kw) (k_prenet_channels kw))
           \<and> (case code_converter net of None \<Rightarrow> False
               | Some m \<Rightarrow> is_shaped (encoder_rule (k_prenet_channels kw)) m))"

definition built_with :: "kwargs \<Rightarrow> TransformerDiffusion \<Rightarrow> bool" where
  "built_with kw net =
     (time_embed_dim net = k_time_embed_dim kw
      \<and> conv_sizes (inp_block net) (k_in_channels kw) (k_prenet_channels kw) 3 1
      \<and> linear_sizes (te_linear1 (time_embed net)) (k_time_embed_dim kw) (k_time_embed_dim kw)
      \<and> linear_sizes (te_linear2 (time_embed net)) (k_time_embed_dim kw) (k_time_embed_dim kw)
      \<and> converters_built kw net
      \<and> shape (unconditioned_embedding net) = [1, 1, k_prenet_channels kw]
      \<and> (\<exists>f. rotary_embeddings net
               = (\<lambda>n. Inr \<lparr>shape = [n, k_rotary_emb_dim kw], entry = f n\<rparr>))
      \<and> linear_sizes (intg net) (k_prenet_channels kw * 2) (k_model_channels kw)
      \<and> list_all (ConcatAttentionBlock_sizes (k_model_channels kw) (k_contraction_dim kw)
                    (k_time_embed_dim kw)) (layers net)
      \<and> is_shaped (groupnorm_rule (k_model_channels kw)) (out_norm (out net))
      \<and> conv_sizes (out_conv (out net)) (k_model_channels kw) (k_out_channels kw) 3 1)"

text \<open>
  The conditioning arguments that \<open>forward\<close> accepts for a batch of \<open>b\<close> elements and
  a sequence of length \<open>l\<close>: precomputed embeddings without the other two arguments, of
  shape (b, l, prenet_channels) unless \<open>conditioning_free\<close> is set and they are ignored; or
  no precomputed embeddings, and then \<open>conditioning_free\<close> or codes of shape
  (b, s, input_vec_dim) with a positive \<open>s\<close>.
\<close>

definition conditioning_ok ::
  "kwargs \<Rightarrow> nat \<Rightarrow> nat \<Rightarrow> T option \<Rightarrow> T option \<Rightarrow> T option \<Rightarrow> bool \<Rightarrow> bool" where
  "conditioning_ok kw b l codes conditioning_input precomputed conditioning_free =
     (case precomputed of
        Some e \<Rightarrow> codes = None \<and> conditioning_input = None
                  \<and> (conditioning_free \<or> shape e = [b, l, k_prenet_channels kw])
      | None \<Rightarrow> conditioning_free
                \<or> (case codes of None \<Rightarrow> False
                    | Some c \<Rightarrow> length (shape c) = 3 \<and> shape c ! 0 = b \<and> 0 < shape c ! 1
                               \<and> shape c ! 2 = k_input_vec_dim kw))"

section \<open>A small model for concrete runs\<close>

text \<open>
  A configuration with two input channels and one block, initial weights that are all
  one, and stand-ins for the modules of other files that copy their input where the
  shapes allow and are zero elsewhere.
\<close>

definition demo_kwargs :: kwargs where
  "demo_kwargs =
     \<lparr>k_prenet_channels = 2, k_prenet_layers = 1, k_time_embed_dim = 2,
      k_model_channels = 2, k_contraction_dim = 1, k_num_layers = 1, k_in_channels = 2,
      k_rotary_emb_dim = 2, k_input_vec_dim = 2, k_out_channels = 4, k_num_heads = 1,
      k_dropout = 0, k_use_fp16 = False, k_ar_prior = False,
      k_unconditioned_percentage = 1/10, k_freeze_except_code_converters = False\<rparr>"

definition demo_env :: init_env where
  "demo_env =
     \<lparr>initial = (\<lambda>_ _ _. 1),
      module1 = (\<lambda>_ _ x idx. entry x idx),
      module2 = (\<lambda>_ _ x y idx. entry x idx),
      rotary_values = (\<lambda>_ _. 0),
      n_params = (\<lambda>_. 2)\<rparr>"

definition demo_net :: TransformerDiffusion where
  "demo_net = TransformerDiffusion_modules demo_kwargs demo_env fresh_params"

definition demo_F :: functional where
  "demo_F = \<lparr>gelu = (\<lambda>v. v), timestep_embedding_values = (\<lambda>t d idx. entry t [idx ! 0]),
               nearest_source = (\<lambda>len n j. j * len div n)\<rparr>"

definition const_tensor :: "nat list \<Rightarrow> real \<Rightarrow> T" where
  "const_tensor shp v = \<lparr>shape = shp, entry = (\<lambda>_. v)\<rparr>"

text \<open>Random draws that fall below one tenth for batch element 0 only.\<close>

definition demo_u :: "nat list \<Rightarrow> real" where
  "demo_u idx = (if idx ! 0 = 0 then 0 else 1)"

section \<open>Basic facts about results and shapes\<close>

lemma and_then_Inr [simp]: "and_then (Inr v) f = f v"
  and and_then_Inl [simp]: "and_then (Inl e) f = Inl e"
  by (simp_all add: and_then_def)

lemma size_at_3 [simp]:
  "shape t = [a, b, c] \<Longrightarrow> size_at t 0 = Inr a"
  "shape t = [a, b, c] \<Longrightarrow> size_at t 1 = Inr b"
  "shape t = [a, b, c] \<Longrightarrow> size_at t (- 1) = Inr c"
  by (simp_all add: size_at_def)

lemma size_at_0_Cons: "shape t = a # s \<Longrightarrow> size_at t 0 = Inr a"
  by (simp add: size_at_def)

section \<open>Properties of the constructor's parameter freezing\<close>

lemma freeze_params_apply:
  "freeze_params ps st q =
     (if q \<in> set ps then (st q)\<lparr>DO_NOT_TRAIN := Some True, requires_grad := False\<rparr> else st q)"
  unfolding freeze_params_def
  by (induction ps arbitrary: st) (auto simp: freeze_param_def)

lemma unfreeze_params_apply:
  assumes "distinct ps" and "\<And>p. p \<in> set ps \<Longrightarrow> DO_NOT_TRAIN (st p) \<noteq> None"
  shows "unfreeze_params ps st =
     Inr (\<lambda>q. if q \<in> set ps then (st q)\<lparr>DO_NOT_TRAIN := None, requires_grad := True\<rparr>
               else st q)"
  using assms
proof (induction ps arbitrary: st)
  case Nil
  then show ?case by simp
next
  case (Cons p ps)
  let ?st = "st(p := (st p)\<lparr>DO_NOT_TRAIN := None, requires_grad := True\<rparr>)"
  from Cons.prems obtain b where b: "DO_NOT_TRAIN (st p) = Some b" by fastforce
  have d: "distinct ps" and n: "p \<notin> set ps" using Cons.prems(1) by simp_all
  have "\<And>q. q \<in> set ps \<Longrightarrow> DO_NOT_TRAIN (?st q) \<noteq> None"
    using Cons.prems(2) n by auto
  from Cons.IH [OF d this]
  have "unfreeze_params ps ?st =
     Inr (\<lambda>q. if q \<in> set ps then (?st q)\<lparr>DO_NOT_TRAIN := None, requires_grad := True\<rparr>
               else ?st q)" .
  then show ?case using b n by (auto simp: fun_eq_iff)
qed

lemma distinct_parameters_of: "distinct (parameters_of np m)"
  by (simp add: parameters_of_def distinct_map inj_on_def)

lemma set_parameters_of: "set (parameters_of np m) = {p. fst p = m \<and> snd p < np m}"
  by (auto simp: parameters_of_def)

lemma set_all_parameters:
  "set (all_parameters np ar) = {p. fst p \<in> set (submodules ar) \<and> snd p < np (fst p)}"
  by (auto simp: all_parameters_def set_parameters_of)

lemma code_converter_is_submodule: "M_code_converter \<in> set (submodules False)"
  and input_converter_is_submodule: "M_input_converter \<in> set (submodules False)"
  by (simp_all add: submodules_def)

lemma init_param_store_frozen:
  "init_param_store np False True =
     Inr (\<lambda>q. if q \<in> set (parameters_of np M_code_converter)
               then \<lparr>requires_grad = True, DO_NOT_TRAIN = None\<rparr>
               else if q \<in> set (all_parameters np False)
               then \<lparr>requires_grad = False, DO_NOT_TRAIN = Some True\<rparr>
               else \<lparr>requires_grad = True, DO_NOT_TRAIN = None\<rparr>)"
proof -
  let ?st = "freeze_params (all_parameters np False) fresh_params"
  have sub: "set (parameters_of np M_code_converter) \<subseteq> set (all_parameters np False)"
    using code_converter_is_submodule by (auto simp: set_parameters_of set_all_parameters)
  have "\<And>p. p \<in> set (parameters_of np M_code_converter) \<Longrightarrow> DO_NOT_TRAIN (?st p) \<noteq> None"
    using sub by (auto simp: freeze_params_apply)
  from unfreeze_params_apply [OF distinct_parameters_of this]
  have "unfreeze_params (parameters_of np M_code_converter) ?st =
     Inr (\<lambda>q. if q \<in> set (parameters_of np M_code_converter)
               then (?st q)\<lparr>DO_NOT_TRAIN := None, requires_grad := True\<rparr> else ?st q)" .
  moreover have "(\<lambda>q. if q \<in> set (parameters_of np M_code_converter)
               then (?st q)\<lparr>DO_NOT_TRAIN := None, requires_grad := True\<rparr> else ?st q)
     = (\<lambda>q. if q \<in> set (parameters_of np M_code_converter)
               then \<lparr>requires_grad = True, DO_NOT_TRAIN = None\<rparr>
               else if q \<in> set (all_parameters np False)
               then \<lparr>requires_grad = False, DO_NOT_TRAIN = Some True\<rparr>
               else \<lparr>requires_grad = True, DO_NOT_TRAIN = None\<rparr>)"
    by (auto simp: fun_eq_iff freeze_params_apply fresh_params_def)
  ultimately show ?thesis
    using code_converter_is_submodule input_converter_is_submodule
    by (simp add: init_param_store_def getattr_def and_then_def py_and_def module_truthy_def)
qed

text \<open>
  Claim C9. Constructed with \<open>freeze_except_code_converters=True\<close> and \<open>ar_prior=False\<close>,
  the constructor succeeds and leaves \<open>requires_grad=True\<close> on exactly the parameters of
  \<open>code_converter\<close>: every parameter of \<open>input_converter\<close> stays frozen, with
  \<open>requires_grad=False\<close> and \<open>DO_NOT_TRAIN\<close> still set.
\<close>

theorem freeze_except_code_converters_skips_input_converter:
  "\<exists>st. init_param_store np False True = Inr st
     \<and> (\<forall>p \<in> set (all_parameters np False).
           requires_grad (st p) = (fst p = M_code_converter))
     \<and> (\<forall>p \<in> set (parameters_of np M_input_converter).
           requires_grad (st p) = False \<and> DO_NOT_TRAIN (st p) = Some True)"
proof -
  have "\<forall>p \<in> set (parameters_of np M_input_converter). p \<in> set (all_parameters np False)"
    using input_converter_is_submodule by (auto simp: set_parameters_of set_all_parameters)
  then show ?thesis
    unfolding init_param_store_frozen
    by (auto simp: set_parameters_of set_all_parameters)
qed

theorem freeze_except_code_converters_skips_input_converter_witness:
  "\<exists>st. init_param_store (\<lambda>_. 2) False True = Inr st
     \<and> requires_grad (st (M_code_converter, 0)) = True
     \<and> requires_grad (st (M_input_converter, 1)) = False
     \<and> DO_NOT_TRAIN (st (M_input_converter, 1)) = Some True
     \<and> requires_grad (st (M_layers, 0)) = False"
proof -
  have a: "(M_code_converter, 0) \<in> set (all_parameters (\<lambda>_. 2) False)"
    and b: "(M_input_converter, 1) \<in> set (all_parameters (\<lambda>_. 2) False)"
    and c: "(M_input_converter, 1) \<in> set (parameters_of (\<lambda>_. 2) M_input_converter)"
    and d: "(M_layers, 0) \<in> set (all_parameters (\<lambda>_. 2) False)"
    by (simp_all add: set_all_parameters set_parameters_of submodules_def)
  from freeze_except_code_converters_skips_input_converter [of "\<lambda>_. 2"]
  obtain st where st: "init_param_store (\<lambda>_. 2) False True = Inr st"
    and all: "\<forall>p \<in> set (all_parameters (\<lambda>_. 2) False).
           requires_grad (st p) = (fst p = M_code_converter)"
    and inp: "\<forall>p \<in> set (parameters_of (\<lambda>_. 2) M_input_converter).
           requires_grad (st p) = False \<and> DO_NOT_TRAIN (st p) = Some True"
    by blast
  from all a have "requires_grad (st (M_code_converter, 0)) = True" by fastforce
  moreover from inp c have "requires_grad (st (M_input_converter, 1)) = False"
    "DO_NOT_TRAIN (st (M_input_converter, 1)) = Some True" by fastforce+
  moreover from all d have "requires_grad (st (M_layers, 0)) = False" by fastforce
  ultimately show ?thesis using st by blast
qed

section \<open>Properties of the temperature schedule\<close>

lemma temperature_at_eq:
  "temperature_at m step =
     max (max_gumbel_temperature (quantizer m) *
            gumbel_temperature_decay (quantizer m) ^ qstep_of m step)
         (min_gumbel_temperature (quantizer m))"
  by (simp add: temperature_at_def update_for_step_def Let_def)

lemma qstep_of_frozen: "step \<le> freeze_quantizer_until m \<Longrightarrow> qstep_of m step = 0"
  by (simp add: qstep_of_def)

lemma qstep_of_mono: "s \<le> s' \<Longrightarrow> qstep_of m s \<le> qstep_of m s'"
  by (simp add: qstep_of_def)

lemma decay_power_antimono:
  fixes d :: real
  assumes "0 \<le> d" "d \<le> 1" "0 \<le> c" "i \<le> j"
  shows "c * d ^ j \<le> c * d ^ i"
proof -
  have "d ^ j \<le> d ^ i" using assms by (simp add: power_decreasing)
  then show ?thesis using assms(3) by (simp add: mult_left_mono)
qed

text \<open>
  Claim C6. For a quantizer whose minimum does not exceed its (non-negative) maximum and
  whose decay factor lies in [0, 1]: up to the freeze threshold the temperature set by
  \<open>update_for_step\<close> is the maximum; past it the temperature is non-increasing in the
  step, is the exponential \<open>max * decay ^ (step - freeze)\<close> clamped from below by the
  minimum, and never falls below the minimum.
\<close>

theorem update_for_step_temperature_schedule:
  assumes "min_gumbel_temperature (quantizer m) \<le> max_gumbel_temperature (quantizer m)"
    and "0 \<le> max_gumbel_temperature (quantizer m)"
    and "0 \<le> gumbel_temperature_decay (quantizer m)"
    and "gumbel_temperature_decay (quantizer m) \<le> 1"
  shows "(s \<le> freeze_quantizer_until m \<longrightarrow>
            temperature_at m s = max_gumbel_temperature (quantizer m))
       \<and> (freeze_quantizer_until m < s \<longrightarrow>
            temperature_at m s =
              max (max_gumbel_temperature (quantizer m) *
                     gumbel_temperature_decay (quantizer m) ^ nat (s - freeze_quantizer_until m))
                  (min_gumbel_temperature (quantizer m)))
       \<and> (freeze_quantizer_until m < s \<and> s \<le> s' \<longrightarrow> temperature_at m s' \<le> temperature_at m s)
       \<and> min_gumbel_temperature (quantizer m) \<le> temperature_at m s"
proof (intro conjI impI)
  assume "s \<le> freeze_quantizer_until m"
  then show "temperature_at m s = max_gumbel_temperature (quantizer m)"
    using assms(1) by (simp add: temperature_at_eq qstep_of_frozen)
next
  assume "freeze_quantizer_until m < s"
  then have "qstep_of m s = nat (s - freeze_quantizer_until m)"
    by (simp add: qstep_of_def)
  then show "temperature_at m s =
      max (max_gumbel_temperature (quantizer m) *
             gumbel_temperature_decay (quantizer m) ^ nat (s - freeze_quantizer_until m))
          (min_gumbel_temperature (quantizer m))"
    by (simp add: temperature_at_eq)
next
  assume "freeze_quantizer_until m < s \<and> s \<le> s'"
  then have "qstep_of m s \<le> qstep_of m s'" by (simp add: qstep_of_mono)
  then have "max_gumbel_temperature (quantizer m) *
               gumbel_temperature_decay (quantizer m) ^ qstep_of m s'
           \<le> max_gumbel_temperature (quantizer m) *
               gumbel_temperature_decay (quantizer m) ^ qstep_of m s"
    using assms by (intro decay_power_antimono) simp_all
  then show "temperature_at m s' \<le> temperature_at m s"
    unfolding temperature_at_eq by (rule max.mono) simp
next
  show "min_gumbel_temperature (quantizer m) \<le> temperature_at m s"
    by (simp add: temperature_at_eq)
qed

theorem update_for_step_temperature_schedule_witness:
  "temperature_at (init_with_quantizer 20000 (1/2)) 20000 = 4
   \<and> temperature_at (init_with_quantizer 20000 (1/2)) 20002 = 1
   \<and> temperature_at (init_with_quantizer 20000 (1/2)) 20005
       \<le> temperature_at (init_with_quantizer 20000 (1/2)) 20002
   \<and> 1/2 \<le> temperature_at (init_with_quantizer 20000 (1/2)) 20002"
proof -
  let ?m = "init_with_quantizer 20000 (1/2)"
  have h: "min_gumbel_temperature (quantizer ?m) \<le> max_gumbel_temperature (quantizer ?m)"
    "0 \<le> max_gumbel_temperature (quantizer ?m)"
    "0 \<le> gumbel_temperature_decay (quantizer ?m)"
    "gumbel_temperature_decay (quantizer ?m) \<le> 1"
    by (simp_all add: init_with_quantizer_def)
  have f: "freeze_quantizer_until ?m = 20000" by (simp add: init_with_quantizer_def)
  have a: "temperature_at ?m 20000 = 4"
    using update_for_step_temperature_schedule [OF h, of 20000 20000]
    by (simp add: f init_with_quantizer_def)
  have b: "temperature_at ?m 20002 = 1"
    using update_for_step_temperature_schedule [OF h, of 20002 20005]
    by (simp add: f init_with_quantizer_def power2_eq_square)
  have c: "temperature_at ?m 20005 \<le> temperature_at ?m 20002"
    using update_for_step_temperature_schedule [OF h, of 20002 20005]
    by (simp add: f)
  have d: "1/2 \<le> temperature_at ?m 20002"
    using update_for_step_temperature_schedule [OF h, of 20002 20005]
    by (simp add: init_with_quantizer_def)
  show ?thesis using a b c d by simp
qed

section \<open>Properties of the multi-codec wrapper\<close>

lemma partition_loop_eq:
  "partition_loop ps mel i qs proj =
     and_then (res_all (map (\<lambda>k. (qs ! k) (slice_channels mel ((i + k) * ps) ((i + k + 1) * ps)))
                         [0..<length qs]))
              (\<lambda>vs. Inr (proj @ vs))"
proof (induction qs arbitrary: i proj)
  case Nil
  then show ?case by (simp add: and_then_def)
next
  case (Cons q qs)
  have m: "map (\<lambda>k. ((q # qs) ! k) (slice_channels mel ((i + k) * ps) ((i + k + 1) * ps)))
             [0..<length (q # qs)]
         = q (slice_channels mel (i * ps) ((i + 1) * ps))
           # map (\<lambda>k. (qs ! k) (slice_channels mel ((Suc i + k) * ps) ((Suc i + k + 1) * ps)))
               [0..<length qs]"
  proof -
    have "[0..<length (q # qs)] = 0 # map Suc [0..<length qs]"
      by (simp add: upt_conv_Cons map_Suc_upt del: upt_Suc)
    then show ?thesis by (simp add: comp_def del: upt_Suc)
  qed
  show ?case
    unfolding m using Cons.IH [of "Suc i"]
    by (simp add: and_then_def Let_def split: sum.splits)
qed

lemma and_then_Inr_id: "and_then m Inr = m"
  by (simp add: and_then_def split: sum.splits)

lemma multi_vqvae_codes_eq:
  "0 < length qs \<Longrightarrow>
   multi_vqvae_codes qs mel =
     and_then (res_all (map (\<lambda>i. (qs ! i) (band mel (length qs) i)) [0..<length qs])) cat_last"
  by (simp add: multi_vqvae_codes_def partition_loop_eq band_def Let_def and_then_Inr_id)

lemma band_upper: "i < n \<Longrightarrow> (i + 1) * (c div n) \<le> (c::nat)"
proof -
  assume "i < n"
  then have "(i + 1) * (c div n) \<le> n * (c div n)" by (intro mult_right_mono) simp_all
  also have "\<dots> \<le> c" by simp
  finally show ?thesis .
qed

lemma slice_channels_nth:
  "hi \<le> length mel \<Longrightarrow> slice_channels mel lo hi = map (\<lambda>k. mel ! (lo + k)) [0..<hi - lo]"
  by (auto simp: slice_channels_def list_eq_iff_nth_eq)

lemma band_nth:
  "i < n \<Longrightarrow>
   band mel n i = map (\<lambda>k. mel ! (i * (length mel div n) + k)) [0..<length mel div n]"
  using band_upper [of i n "length mel"]
  by (simp add: band_def slice_channels_nth)

lemma length_band: "i < n \<Longrightarrow> length (band mel n i) = length mel div n"
  by (simp add: band_nth)

lemma concat_bands_upto:
  "j \<le> n \<Longrightarrow> concat (map (band mel n) [0..<j]) = take (j * (length mel div n)) mel"
proof (induction j)
  case 0
  then show ?case by simp
next
  case (Suc j)
  then have "concat (map (band mel n) [0..<Suc j])
      = take (j * (length mel div n)) mel @ band mel n j" by simp
  also have "band mel n j = take (length mel div n) (drop (j * (length mel div n)) mel)"
    by (simp add: band_def slice_channels_def)
  also have "take (j * (length mel div n)) mel @ \<dots>
      = take (j * (length mel div n) + length mel div n) mel"
    by (rule take_add [symmetric])
  also have "j * (length mel div n) + length mel div n = Suc j * (length mel div n)"
    by simp
  finally show ?case .
qed

lemma concat_bands: "concat (map (band mel n) [0..<n]) = take (n * (length mel div n)) mel"
  by (simp add: concat_bands_upto)

lemma unread_channels: "length (drop (n * (length mel div n)) mel) = length mel mod n"
  by (simp add: minus_mult_div_eq_mod)

lemma band_unique:
  assumes "0 < ps" "c < n * ps"
  shows "\<exists>!i. i < n \<and> i * ps \<le> c \<and> c < (i + 1) * (ps::nat)"
proof (rule ex1I [of _ "c div ps"])
  show "c div ps < n \<and> c div ps * ps \<le> c \<and> c < (c div ps + 1) * ps"
    using assms dividend_less_times_div [of ps c]
    by (simp add: less_mult_imp_div_less mult.commute)
next
  fix i assume "i < n \<and> i * ps \<le> c \<and> c < (i + 1) * ps"
  then have "ps * i \<le> c" "c < ps * Suc i" by (simp_all add: mult.commute)
  then have "c div ps = i" by (rule div_nat_eqI)
  then show "i = c div ps" by simp
qed

lemma cat_last_nth:
  assumes "cat_last ps = Inr r" "b < length r" "s < length (r ! b)"
  shows "r ! b ! s = concat (map (\<lambda>i. ps ! i ! b ! s) [0..<length ps])"
proof -
  have m: "map (\<lambda>q. q ! b ! s) ps = map (\<lambda>i. ps ! i ! b ! s) [0..<length ps]"
    by (rule nth_equalityI) simp_all
  obtain p rest where ps: "ps = p # rest"
    using assms(1) by (cases ps) (simp_all add: cat_last_def)
  define f where "f = (\<lambda>b s. concat (map (\<lambda>q. q ! b ! s) ps))"
  have r: "r = map (\<lambda>b. map (f b) [0..<length (p ! b)]) [0..<length p]"
    using assms(1) unfolding ps cat_last_def f_def by (simp split: if_splits)
  have b: "b < length p" using assms(2) unfolding r by simp
  then have rb: "r ! b = map (f b) [0..<length (p ! b)]" unfolding r by simp
  have "s < length (p ! b)" using assms(3) unfolding rb by simp
  then have "r ! b ! s = f b s" unfolding rb by simp
  then show ?thesis unfolding f_def m .
qed

lemma res_all_Inr:
  "res_all rs = Inr vs \<Longrightarrow> length vs = length rs \<and> (\<forall>i<length rs. rs ! i = Inr (vs ! i))"
proof (induction rs arbitrary: vs)
  case Nil
  then show ?case by simp
next
  case (Cons r rs)
  from Cons.prems obtain v vs' where r: "r = Inr v" and rs: "res_all rs = Inr vs'"
    and vs: "vs = v # vs'"
    by (auto simp: and_then_def split: sum.splits)
  from Cons.IH [OF rs] show ?case
    unfolding vs r by (auto simp: nth_Cons split: nat.splits)
qed

lemma band_prefix:
  assumes "i < n" "length mel' = length mel"
    and "take (n * (length mel div n)) mel' = take (n * (length mel div n)) mel"
  shows "band mel' n i = band mel n i"
proof -
  let ?ps = "length mel div n"
  have le: "(i + 1) * ?ps \<le> n * ?ps" using assms(1) by (intro mult_right_mono) simp_all
  have "mel' ! (i * ?ps + k) = mel ! (i * ?ps + k)" if "k < ?ps" for k
  proof -
    have "i * ?ps + k < n * ?ps" using that le by simp
    then have "mel' ! (i * ?ps + k) = take (n * ?ps) mel' ! (i * ?ps + k)"
      "mel ! (i * ?ps + k) = take (n * ?ps) mel ! (i * ?ps + k)" by simp_all
    then show ?thesis using assms(3) by simp
  qed
  then show ?thesis
    using assms(1,2) by (simp add: band_nth)
qed

lemma multi_vqvae_codes_prefix:
  assumes "0 < length qs" "length mel' = length mel"
    and "take (length qs * (length mel div length qs)) mel'
         = take (length qs * (length mel div length qs)) mel"
  shows "multi_vqvae_codes qs mel' = multi_vqvae_codes qs mel"
proof -
  have "map (\<lambda>i. (qs ! i) (band mel' (length qs) i)) [0..<length qs]
      = map (\<lambda>i. (qs ! i) (band mel (length qs) i)) [0..<length qs]"
  proof (rule map_cong [OF refl])
    fix i assume "i \<in> set [0..<length qs]"
    then have "i < length qs" by simp
    then have "band mel' (length qs) i = band mel (length qs) i"
      using assms(2,3) by (rule band_prefix)
    then show "(qs ! i) (band mel' (length qs) i) = (qs ! i) (band mel (length qs) i)"
      by simp
  qed
  then show ?thesis unfolding multi_vqvae_codes_eq [OF assms(1)] by (rule arg_cong)
qed

text \<open>
  Claim C7. With at least one codec and a channel count \<open>C\<close> that the codec count
  \<open>N\<close> divides: the band that the loop hands to codec \<open>i\<close> is the channels
  \<open>i * (C div N), ..., (i + 1) * (C div N) - 1\<close> of the reference; the bands, in codec
  order, put together are the whole reference, and every channel index lies in exactly one
  band; the codes are the codecs' projections of their bands, concatenated by
  \<open>torch.cat\<close> along the feature axis in codec order \<open>0, ..., N - 1\<close>.
\<close>

theorem multi_vqvae_equal_contiguous_bands:
  assumes "0 < length qs" and "length qs dvd length mel"
  shows "(\<forall>i<length qs. band mel (length qs) i
            = map (\<lambda>k. mel ! (i * (length mel div length qs) + k)) [0..<length mel div length qs])
    \<and> concat (map (band mel (length qs)) [0..<length qs]) = mel
    \<and> (\<forall>c<length mel. \<exists>!i. i < length qs \<and> i * (length mel div length qs) \<le> c
                                  \<and> c < (i + 1) * (length mel div length qs))
    \<and> multi_vqvae_codes qs mel
        = and_then (res_all (map (\<lambda>i. (qs ! i) (band mel (length qs) i)) [0..<length qs])) cat_last
    \<and> (\<forall>r. multi_vqvae_codes qs mel = Inr r \<longrightarrow>
          (\<exists>ps. length ps = length qs
             \<and> (\<forall>i<length qs. (qs ! i) (band mel (length qs) i) = Inr (ps ! i))
             \<and> (\<forall>b<length r. \<forall>s<length (r ! b).
                   r ! b ! s = concat (map (\<lambda>i. ps ! i ! b ! s) [0..<length qs]))))"
proof (intro conjI allI impI)
  fix i assume "i < length qs"
  then show "band mel (length qs) i
            = map (\<lambda>k. mel ! (i * (length mel div length qs) + k)) [0..<length mel div length qs]"
    by (rule band_nth)
next
  have "length qs * (length mel div length qs) = length mel" using assms(2) by simp
  then show "concat (map (band mel (length qs)) [0..<length qs]) = mel"
    by (simp add: concat_bands)
next
  fix c assume c: "c < length mel"
  have full: "length qs * (length mel div length qs) = length mel" using assms(2) by simp
  have "0 < length mel div length qs"
    using c full by (cases "length mel div length qs") simp_all
  then show "\<exists>!i. i < length qs \<and> i * (length mel div length qs) \<le> c
                \<and> c < (i + 1) * (length mel div length qs)"
    using c full by (intro band_unique) simp_all
next
  show "multi_vqvae_codes qs mel
        = and_then (res_all (map (\<lambda>i. (qs ! i) (band mel (length qs) i)) [0..<length qs])) cat_last"
    using assms(1) by (rule multi_vqvae_codes_eq)
next
  fix r assume r: "multi_vqvae_codes qs mel = Inr r"
  let ?rs = "map (\<lambda>i. (qs ! i) (band mel (length qs) i)) [0..<length qs]"
  from r obtain ps where ps: "res_all ?rs = Inr ps" and cat: "cat_last ps = Inr r"
    unfolding multi_vqvae_codes_eq [OF assms(1)]
    by (auto simp: and_then_def split: sum.splits)
  from res_all_Inr [OF ps] have len: "length ps = length qs"
    and each: "\<forall>i<length qs. (qs ! i) (band mel (length qs) i) = Inr (ps ! i)" by simp_all
  have "\<forall>b<length r. \<forall>s<length (r ! b).
          r ! b ! s = concat (map (\<lambda>i. ps ! i ! b ! s) [0..<length qs])"
    using cat_last_nth [OF cat] len by simp
  with len each show "\<exists>ps. length ps = length qs
             \<and> (\<forall>i<length qs. (qs ! i) (band mel (length qs) i) = Inr (ps ! i))
             \<and> (\<forall>b<length r. \<forall>s<length (r ! b).
                   r ! b ! s = concat (map (\<lambda>i. ps ! i ! b ! s) [0..<length qs]))"
    by blast
qed

theorem multi_vqvae_equal_contiguous_bands_witness:
  "multi_vqvae_codes [unit_codec, unit_codec] [10, 20, 30, 40] = Inr [[[10, 20, 30, 40]]]
   \<and> band [10, 20, 30, 40 :: nat] 2 0 = [10, 20]
   \<and> band [10, 20, 30, 40 :: nat] 2 1 = [30, 40]
   \<and> concat (map (band [10, 20, 30, 40 :: nat] 2) [0..<2]) = [10, 20, 30, 40]"
proof -
  let ?qs = "[unit_codec, unit_codec]" and ?mel = "[10, 20, 30, 40 :: nat]"
  have l2: "length ?qs = 2" and l4: "length ?mel = 4" by simp_all
  have h: "0 < length ?qs" "length ?qs dvd length ?mel" unfolding l2 l4 by simp_all
  have b0: "band ?mel 2 0 = [10, 20]" and b1: "band ?mel 2 1 = [30, 40]"
    by (simp_all add: band_def slice_channels_def)
  have up: "[0..<2] = [0, Suc 0]" by (simp add: upt_conv_Cons)
  from multi_vqvae_equal_contiguous_bands [OF h]
  have "multi_vqvae_codes ?qs ?mel
        = and_then (res_all (map (\<lambda>i. (?qs ! i) (band ?mel (length ?qs) i)) [0..<length ?qs])) cat_last"
    and "concat (map (band ?mel (length ?qs)) [0..<length ?qs]) = ?mel"
    by blast+
  then show ?thesis
    using b0 b1
    by (simp add: up unit_codec_def and_then_def cat_last_def same_outer_def)
qed

text \<open>
  Claim C10. With at least one codec and any channel count \<open>C\<close>, divisible by the codec
  count \<open>N\<close> or not: the partitioning raises nothing of its own (the only errors are
  those of a codec and of \<open>torch.cat\<close>); codec \<open>i\<close> is given exactly the channels
  \<open>i * (C div N), ..., (i + 1) * (C div N) - 1\<close>; the bands cover the first
  \<open>N * (C div N)\<close> channels, and the \<open>C mod N\<close> channels after them are not read: two
  references of the same channel count that agree on the first \<open>N * (C div N)\<close> channels
  give the same result of \<open>forward\<close>.
\<close>

theorem multi_vqvae_floor_bands_drop_tail:
  assumes "0 < length qs"
  shows "multi_vqvae_codes qs mel
        = and_then (res_all (map (\<lambda>i. (qs ! i) (band mel (length qs) i)) [0..<length qs])) cat_last
    \<and> (\<forall>i<length qs. band mel (length qs) i
            = map (\<lambda>k. mel ! (i * (length mel div length qs) + k)) [0..<length mel div length qs])
    \<and> concat (map (band mel (length qs)) [0..<length qs])
        = take (length qs * (length mel div length qs)) mel
    \<and> length (drop (length qs * (length mel div length qs)) mel) = length mel mod length qs
    \<and> (\<forall>mel'. length mel' = length mel
               \<and> take (length qs * (length mel div length qs)) mel'
                   = take (length qs * (length mel div length qs)) mel
          \<longrightarrow> multi_vqvae_forward diff qs x timesteps mel' conditioning_input conditioning_free
              = multi_vqvae_forward diff qs x timesteps mel conditioning_input conditioning_free)"
proof (intro conjI allI impI)
  show "multi_vqvae_codes qs mel
        = and_then (res_all (map (\<lambda>i. (qs ! i) (band mel (length qs) i)) [0..<length qs])) cat_last"
    using assms by (rule multi_vqvae_codes_eq)
next
  fix i assume "i < length qs"
  then show "band mel (length qs) i
            = map (\<lambda>k. mel ! (i * (length mel div length qs) + k)) [0..<length mel div length qs]"
    by (rule band_nth)
next
  show "concat (map (band mel (length qs)) [0..<length qs])
        = take (length qs * (length mel div length qs)) mel"
    by (rule concat_bands)
next
  show "length (drop (length qs * (length mel div length qs)) mel) = length mel mod length qs"
    by (rule unread_channels)
next
  fix mel' :: "'a list"
  assume "length mel' = length mel
               \<and> take (length qs * (length mel div length qs)) mel'
                   = take (length qs * (length mel div length qs)) mel"
  then have "multi_vqvae_codes qs mel' = multi_vqvae_codes qs mel"
    using assms by (intro multi_vqvae_codes_prefix) simp_all
  then show "multi_vqvae_forward diff qs x timesteps mel' conditioning_input conditioning_free
              = multi_vqvae_forward diff qs x timesteps mel conditioning_input conditioning_free"
    by (simp add: multi_vqvae_forward_def)
qed


theorem multi_vqvae_floor_bands_drop_tail_witness:
  "multi_vqvae_codes [unit_codec, unit_codec] [10, 20, 30, 40, 50] = Inr [[[10, 20, 30, 40]]]
   \<and> band [10, 20, 30, 40, 50 :: nat] 2 1 = [30, 40]
   \<and> length (drop (2 * (5 div 2)) [10, 20, 30, 40, 50 :: nat]) = 1
   \<and> multi_vqvae_forward (\<lambda>x t codes ci cf. Inr codes) [unit_codec, unit_codec]
         () () [10, 20, 30, 40, 99] (None :: unit option) False
       = multi_vqvae_forward (\<lambda>x t codes ci cf. Inr codes) [unit_codec, unit_codec]
         () () [10, 20, 30, 40, 50] (None :: unit option) False"
proof -
  let ?qs = "[unit_codec, unit_codec]" and ?mel = "[10, 20, 30, 40, 50 :: nat]"
  let ?mel' = "[10, 20, 30, 40, 99 :: nat]"
  let ?diff = "\<lambda>(x::unit) (t::unit) (codes :: nat tensor3 option) (ci :: unit option) (cf::bool).
                 (Inr codes :: nat tensor3 option res)"
  have h: "0 < length ?qs" by simp
  have b0: "band ?mel 2 0 = [10, 20]" and b1: "band ?mel 2 1 = [30, 40]"
    by (simp_all add: band_def slice_channels_def)
  have up: "[0..<2] = [0, Suc 0]" by (simp add: upt_conv_Cons)
  have pre: "length ?mel' = length ?mel
             \<and> take (length ?qs * (length ?mel div length ?qs)) ?mel'
                 = take (length ?qs * (length ?mel div length ?qs)) ?mel"
  proof -
    have l: "length ?qs = 2" "length ?mel = 5" "length ?mel' = 5" by simp_all
    show ?thesis unfolding l by simp
  qed
  note t = multi_vqvae_floor_bands_drop_tail [OF h, of ?mel ?diff "()" "()" None False]
  have l2: "length ?qs = 2" by simp
  from t have e: "multi_vqvae_codes ?qs ?mel
        = and_then (res_all (map (\<lambda>i. (?qs ! i) (band ?mel 2 i)) [0..<2])) cat_last"
    unfolding l2 by blast
  from t pre have f: "multi_vqvae_forward ?diff ?qs () () ?mel' None False
                    = multi_vqvae_forward ?diff ?qs () () ?mel None False"
    by blast
  have "multi_vqvae_codes ?qs ?mel = Inr [[[10, 20, 30, 40]]]"
    unfolding e using b0 b1
    by (simp add: up unit_codec_def and_then_def cat_last_def same_outer_def)
  then show ?thesis using b1 f by simp
qed

section \<open>Properties of forward: the guard and the unused parameters\<close>

lemma forward_guard_precomputed_None [simp]:
  "forward_guard codes conditioning_input None = Inr ()"
  by (simp add: forward_guard_def)

lemma demo_net_simps [simp]:
  "training demo_net" "unconditioned_percentage demo_net = 1/10" "\<not> ar_prior demo_net"
  "shape (unconditioned_embedding demo_net) = [1, 1, 2]"
  "entry (unconditioned_embedding demo_net) idx = 1"
  "input_converter demo_net = Some (nn_Linear demo_env ''input_converter'' 0 2 2 True)"
  "code_converter demo_net = Some (shaped (encoder_rule 2) (module1 demo_env ''code_converter'' 0))"
  by (simp_all add: demo_net_def TransformerDiffusion_modules_def demo_kwargs_def demo_env_def)

text \<open>
  Claim C1. Whenever \<open>precomputed_code_embeddings\<close> is given together with \<open>codes\<close> or
  \<open>conditioning_input\<close>, \<open>forward\<close> raises AssertionError, whatever the model, the input
  and the other arguments are: nothing is computed before the check. When
  \<open>precomputed_code_embeddings\<close> is \<open>None\<close> the check passes, and \<open>forward\<close> is the rest
  of its body.
\<close>

theorem forward_rejects_codes_with_precomputed_embeddings:
  "(precomputed \<noteq> None \<and> (codes \<noteq> None \<or> conditioning_input \<noteq> None) \<longrightarrow>
      forward net F u x timesteps codes conditioning_input precomputed conditioning_free
        = Inl AssertionError)
   \<and> forward_guard codes conditioning_input (None :: T option) = Inr ()
   \<and> forward net F u x timesteps codes conditioning_input None conditioning_free
       = and_then (forward_code_emb net F u x codes None conditioning_free) (\<lambda>code_emb.
         and_then (forward_trunk net F x timesteps code_emb) (\<lambda>out.
           Inr (add_scalar out
                  (extraneous_addition (forward_unused_params net conditioning_free) * 0))))"
  by (auto simp: forward_def forward_guard_def and_then_def)

theorem forward_rejects_codes_with_precomputed_embeddings_witness:
  "forward demo_net demo_F (\<lambda>_. 0) (const_tensor [1, 2, 3] 1) (const_tensor [1] 600)
     (Some (const_tensor [1, 3, 2] 1)) None (Some (const_tensor [1, 3, 2] 1)) False
     = Inl AssertionError
   \<and> forward demo_net demo_F (\<lambda>_. 0) (const_tensor [1, 2, 3] 1) (const_tensor [1] 600)
     None (Some (const_tensor [1, 3, 2] 1)) (Some (const_tensor [1, 3, 2] 1)) True
     = Inl AssertionError"
  using forward_rejects_codes_with_precomputed_embeddings
    [of "Some (const_tensor [1, 3, 2] 1)" "Some (const_tensor [1, 3, 2] 1)" None
        demo_net demo_F "\<lambda>_. 0" "const_tensor [1, 2, 3] 1" "const_tensor [1] 600" False]
    forward_rejects_codes_with_precomputed_embeddings
    [of "Some (const_tensor [1, 3, 2] 1)" None "Some (const_tensor [1, 3, 2] 1)"
        demo_net demo_F "\<lambda>_. 0" "const_tensor [1, 2, 3] 1" "const_tensor [1] 600" True]
  by simp

lemma forward_unused_params_conditioned:
  "forward_unused_params net False = [(M_unconditioned_embedding, unconditioned_embedding net)]"
  by (simp add: forward_unused_params_def)

lemma unused_params_cover_codes: "unused_params_cover net None False"
  by (simp add: unused_params_cover_def active_code_modules_def input_processing_modules_def
      converter_modules_def forward_unused_params_def)

text \<open>
  Claim C2, evaluated on the code. With \<open>conditioning_free=True\<close> the list
  \<open>unused_params\<close> is empty and the term added to the output is zero times zero, while the
  converters (or the prior modules) are not called: the requirement that every unused
  input-processing parameter is in the list fails for every model. The same holds when the
  embeddings are precomputed.
\<close>

theorem forward_conditioning_free_leaves_converters_out:
  "\<not> unused_params_cover net precomputed True
   \<and> \<not> unused_params_cover net (Some e) False
   \<and> forward_unused_params net True = []
   \<and> extraneous_addition (forward_unused_params net True) = 0
   \<and> active_code_modules net precomputed True = [M_unconditioned_embedding]"
  by (simp add: unused_params_cover_def active_code_modules_def input_processing_modules_def
      converter_modules_def forward_unused_params_def extraneous_addition_def)

section \<open>Properties of timestep_independent\<close>

lemma broadcast_mask:
  "broadcast_shapes [b, Suc 0, p] [b, s, p] = Some [b, s, p]"
  "broadcast_shapes [b, Suc 0, Suc 0] [b, s, p] = Some [b, s, p]"
  by (auto simp: broadcast_shapes_def)

lemma mask_code_emb_training:
  assumes "training net" "0 < unconditioned_percentage net"
    and "shape code_emb = [b, s, p]" "shape (unconditioned_embedding net) = [1, 1, p]"
    and "shape prior = b # rest"
  shows "mask_code_emb net u prior code_emb =
     Inr \<lparr>shape = [b, s, p],
          entry = (\<lambda>idx. if u (bindex [b, 1, 1] idx) < unconditioned_percentage net
                        then entry (unconditioned_embedding net)
                               (map2 (\<lambda>i d. i mod d) (bindex [b, 1, p] idx) [1, 1, p])
                        else entry code_emb (bindex [b, s, p] idx))\<rparr>"
  using assms
  by (simp add: mask_code_emb_def size_at_0_Cons repeat_def torch_where_def broadcast_mask
      lt_scalar_def torch_rand_def Let_def cong: if_cong)

lemma mask_code_emb_eval:
  "\<not> training net \<Longrightarrow> mask_code_emb net u prior code_emb = Inr code_emb"
  by (simp add: mask_code_emb_def)

lemma resample_entry:
  assumes "shape m = [b, s, p]" "0 < s" "0 < n"
  shows "and_then (permute021 m) (\<lambda>c. and_then (interpolate_nearest src c n) permute021)
       = Inr \<lparr>shape = [b, n, p],
              entry = (\<lambda>idx. entry m [idx ! 0, nearest_index src s n (idx ! 1), idx ! 2])\<rparr>"
  using assms by (simp add: permute021_def interpolate_nearest_def)

lemma nearest_index_less: "0 < s \<Longrightarrow> nearest_index src s n j < s"
  by (auto simp: nearest_index_def min_def)

lemma bindex_valid3:
  "i < b \<Longrightarrow> k < s \<Longrightarrow> f < p \<Longrightarrow> bindex [b, s, p] [i, k, f] = [i, k, f]"
  by (auto simp: bindex_def)

lemma bindex_mask3:
  "i < b \<Longrightarrow> bindex [b, Suc 0, Suc 0] [i, k, f] = [i, 0, 0]"
  by (auto simp: bindex_def)

lemma bindex_uncond3:
  "i < b \<Longrightarrow> f < p \<Longrightarrow>
   map2 (\<lambda>i d. i mod d) (bindex [b, Suc 0, p] [i, k, f]) [Suc 0, Suc 0, p] = [0, 0, f]"
  by (auto simp: bindex_def)

text \<open>
  Claim C8. In training mode with a positive \<open>unconditioned_percentage\<close>, let the converter
  and the encoder turn the prior into a code embedding of shape (b, s, p), with the
  unconditioned embedding of shape (1, 1, p). Then for every outcome \<open>u\<close> of the random
  draws and every index computation of the interpolation, \<open>timestep_independent\<close> returns a
  tensor of shape (b, n, p) in which every batch element \<open>i\<close> is, at all positions and
  features, either the unconditioned embedding (when the draw of element \<open>i\<close> is below the
  percentage) or the resampled code embedding of that element, which is also what
  evaluation mode returns (otherwise). The resampled embedding reads, at each position,
  one existing position of the code embedding of the same element. The choice is made by
  the one draw \<open>u [i, 0, 0]\<close> of the element.
\<close>

theorem timestep_independent_masks_whole_batch_elements:
  assumes tr: "training net" "0 < unconditioned_percentage net"
    and conv: "attr (if ar_prior net then ar_input net else input_converter net) = Inr conv"
    and enc: "attr (if ar_prior net then ar_prior_intg net else code_converter net) = Inr enc"
    and run: "linear conv prior = Inr c0" "enc c0 = Inr code_emb"
    and shapes: "shape code_emb = [b, s, p]" "shape (unconditioned_embedding net) = [1, 1, p]"
      "shape prior = b # rest"
    and pos: "0 < s" "0 < n"
  shows "\<exists>out real.
      timestep_independent net F u (Some prior) n = Inr out
    \<and> timestep_independent (net\<lparr>training := False\<rparr>) F u (Some prior) n = Inr real
    \<and> shape out = [b, n, p] \<and> shape real = [b, n, p]
    \<and> (\<forall>j. nearest_index (nearest_source F) s n j < s)
    \<and> (\<forall>i<b. \<forall>j<n. \<forall>f<p. entry real [i, j, f] = entry code_emb [i, nearest_index (nearest_source F) s n j, f])
    \<and> (\<forall>i<b.
          (u [i, 0, 0] < unconditioned_percentage net
             \<and> (\<forall>j<n. \<forall>f<p. entry out [i, j, f] = entry (unconditioned_embedding net) [0, 0, f]))
        \<or> (\<not> u [i, 0, 0] < unconditioned_percentage net
             \<and> (\<forall>j<n. \<forall>f<p. entry out [i, j, f] = entry real [i, j, f])))"
proof -
  let ?up = "unconditioned_percentage net" and ?src = "nearest_source F"
  let ?m = "\<lparr>shape = [b, s, p],
          entry = (\<lambda>idx. if u (bindex [b, 1, 1] idx) < ?up
                        then entry (unconditioned_embedding net)
                               (map2 (\<lambda>i d. i mod d) (bindex [b, 1, p] idx) [1, 1, p])
                        else entry code_emb (bindex [b, s, p] idx))\<rparr>"
  let ?out = "\<lparr>shape = [b, n, p],
              entry = (\<lambda>idx. entry ?m [idx ! 0, nearest_index ?src s n (idx ! 1), idx ! 2])\<rparr>"
  let ?real = "\<lparr>shape = [b, n, p],
              entry = (\<lambda>idx. entry code_emb [idx ! 0, nearest_index ?src s n (idx ! 1), idx ! 2])\<rparr>"
  have mask: "mask_code_emb net u prior code_emb = Inr ?m"
    using tr shapes by (rule mask_code_emb_training)
  have "shape ?m = [b, s, p]" by simp
  from resample_entry [OF this pos, where src = ?src]
  have o: "timestep_independent net F u (Some prior) n = Inr ?out"
    unfolding timestep_independent_def using conv enc run mask by simp
  have conv': "attr (if ar_prior (net\<lparr>training := False\<rparr>) then ar_input (net\<lparr>training := False\<rparr>)
                     else input_converter (net\<lparr>training := False\<rparr>)) = Inr conv"
    and enc': "attr (if ar_prior (net\<lparr>training := False\<rparr>) then ar_prior_intg (net\<lparr>training := False\<rparr>)
                     else code_converter (net\<lparr>training := False\<rparr>)) = Inr enc"
    using conv enc by (auto split: if_splits)
  have r: "timestep_independent (net\<lparr>training := False\<rparr>) F u (Some prior) n = Inr ?real"
    unfolding timestep_independent_def
    using conv' enc' run resample_entry [OF shapes(1) pos, where src = ?src]
    by (simp add: mask_code_emb_eval)
  have e: "entry ?out [i, j, f] =
      (if u [i, 0, 0] < ?up then entry (unconditioned_embedding net) [0, 0, f]
       else entry ?real [i, j, f])" if "i < b" "j < n" "f < p" for i j f
    using that nearest_index_less [OF pos(1), of ?src n j]
    by (simp add: bindex_valid3 bindex_mask3 bindex_uncond3)
  have less: "\<forall>j. nearest_index ?src s n j < s"
    using pos(1) by (simp add: nearest_index_less)
  show ?thesis
    apply (rule exI [of _ ?out], rule exI [of _ ?real])
    using o r e less by auto
qed

theorem timestep_independent_masks_whole_batch_elements_witness:
  "\<exists>out. timestep_independent demo_net demo_F demo_u (Some (const_tensor [2, 3, 2] 5)) 3 = Inr out
     \<and> shape out = [2, 3, 2]
     \<and> entry out [0, 1, 1] = 1 \<and> entry out [0, 2, 0] = 1
     \<and> entry out [1, 1, 1] = 11 \<and> entry out [1, 2, 0] = 11"
proof -
  let ?prior = "const_tensor [2, 3, 2] 5"
  let ?conv = "nn_Linear demo_env ''input_converter'' 0 2 2 True"
  let ?enc = "shaped (encoder_rule 2) (module1 demo_env ''code_converter'' 0)"
  have up: "[0..<2] = [0, Suc 0]" by (simp add: upt_conv_Cons)
  obtain c0 where c0: "linear ?conv ?prior = Inr c0" "shape c0 = [2, 3, 2]" "\<And>idx. entry c0 idx = 11"
    by (simp add: linear_def nn_Linear_def const_tensor_def demo_env_def up)
  obtain code_emb where ce: "?enc c0 = Inr code_emb" "shape code_emb = [2, 3, 2]"
    "\<And>idx. entry code_emb idx = 11"
    using c0(2,3) by (simp add: shaped_def encoder_rule_def demo_env_def)
  have h1: "training demo_net" "0 < unconditioned_percentage demo_net" by simp_all
  have h2: "attr (if ar_prior demo_net then ar_input demo_net else input_converter demo_net) = Inr ?conv"
    "attr (if ar_prior demo_net then ar_prior_intg demo_net else code_converter demo_net) = Inr ?enc"
    by (simp_all add: attr_def)
  have h3: "shape (unconditioned_embedding demo_net) = [1, 1, 2]"
    "shape ?prior = 2 # [3, 2]" "0 < (3::nat)"
    by (simp_all add: const_tensor_def)
  note t = timestep_independent_masks_whole_batch_elements
    [OF h1 h2 c0(1) ce(1) ce(2) h3(1,2) h3(3) h3(3), where F = demo_F and u = demo_u]
  from t show ?thesis
  proof (elim exE conjE)
    fix out real
    assume o: "timestep_independent demo_net demo_F demo_u (Some ?prior) 3 = Inr out"
      and s: "shape out = [2, 3, 2]"
      and r: "\<forall>i<2. \<forall>j<3. \<forall>f<2. entry real [i, j, f] = entry code_emb [i, nearest_index (nearest_source demo_F) 3 3 j, f]"
      and m: "\<forall>i<2.
          (demo_u [i, 0, 0] < unconditioned_percentage demo_net
             \<and> (\<forall>j<3. \<forall>f<2. entry out [i, j, f] = entry (unconditioned_embedding demo_net) [0, 0, f]))
        \<or> (\<not> demo_u [i, 0, 0] < unconditioned_percentage demo_net
             \<and> (\<forall>j<3. \<forall>f<2. entry out [i, j, f] = entry real [i, j, f]))"
    have lt: "(0::nat) < 2" "(1::nat) < 2" "(1::nat) < 3" "(2::nat) < 3" by simp_all
    from m [THEN spec, of 0] lt(1) have "(demo_u [0, 0, 0] < unconditioned_percentage demo_net
             \<and> (\<forall>j<3. \<forall>f<2. entry out [0, j, f] = entry (unconditioned_embedding demo_net) [0, 0, f]))
        \<or> (\<not> demo_u [0, 0, 0] < unconditioned_percentage demo_net
             \<and> (\<forall>j<3. \<forall>f<2. entry out [0, j, f] = entry real [0, j, f]))"
      by (rule mp)
    then have m0: "\<forall>j<3. \<forall>f<2. entry out [0, j, f] = 1"
      by (simp add: demo_u_def)
    from m [THEN spec, of 1] lt(2) have "(demo_u [1, 0, 0] < unconditioned_percentage demo_net
             \<and> (\<forall>j<3. \<forall>f<2. entry out [1, j, f] = entry (unconditioned_embedding demo_net) [0, 0, f]))
        \<or> (\<not> demo_u [1, 0, 0] < unconditioned_percentage demo_net
             \<and> (\<forall>j<3. \<forall>f<2. entry out [1, j, f] = entry real [1, j, f]))"
      by (rule mp)
    then have m1: "\<forall>j<3. \<forall>f<2. entry out [1, j, f] = entry real [1, j, f]"
      by (simp add: demo_u_def)
    from r lt(2) have "\<forall>j<3. \<forall>f<2. entry real [1, j, f] = 11"
      by (simp add: ce(3))
    with m1 have m1': "\<forall>j<3. \<forall>f<2. entry out [1, j, f] = 11" by simp
    have "entry out [0, 1, 1] = 1" "entry out [0, 2, 0] = 1" using m0 by simp_all
    moreover have "entry out [1, 1, 1] = 11" "entry out [1, 2, 0] = 11" using m1' by simp_all
    ultimately show ?thesis using o s by simp
  qed
qed

section \<open>The shape of the output of forward\<close>

lemma permute021_3:
  "shape t = [a, b, c] \<Longrightarrow>
   permute021 t = Inr \<lparr>shape = [a, c, b], entry = (\<lambda>idx. entry t [idx ! 0, idx ! 2, idx ! 1])\<rparr>"
  by (simp add: permute021_def)

lemma shaped_ok:
  "rule (shape x) = Some s \<Longrightarrow> shaped rule f x = Inr \<lparr>shape = s, entry = f x\<rparr>"
  by (simp add: shaped_def)

lemma shaped2_ok:
  "rule (shape x) (shape y) = Some s \<Longrightarrow> shaped2 rule f x y = Inr \<lparr>shape = s, entry = f x y\<rparr>"
  by (simp add: shaped2_def)

lemma cat2_shape:
  assumes "shape a = [b, l, m]" "shape c = [b, l, n]"
  shows "\<exists>y. cat2 a c = Inr y \<and> shape y = [b, l, m + n]"
  using assms by (simp add: cat2_def)

lemma conv1d_shape:
  assumes "conv_sizes l n_in n_out 3 1" "shape x = [b, n_in, len]" "0 < len"
  shows "\<exists>y. conv1d l x = Inr y \<and> shape y = [b, n_out, len]"
  using assms by (simp add: conv1d_def conv_sizes_def)

lemma linear_shape:
  assumes "linear_sizes l n_in n_out" "shape x = s @ [n_in]"
  shows "\<exists>y. linear l x = Inr y \<and> shape y = s @ [n_out]"
  using assms by (simp add: linear_def linear_sizes_def)

lemma SubBlock_forward_shape:
  assumes sz: "SubBlock_sizes inp c sb" and x: "shape x = [b, l, inp]" and l: "0 < l"
  shows "\<exists>y. SubBlock_forward F sb x rot = Inr y \<and> shape y = [b, l, inp + c * 2]"
proof -
  from sz obtain fa fn ff' where m: "attn sb = shaped2 (attention_rule inp c) fa"
    "attnorm sb = shaped (layernorm_rule c) fn" "ffnorm sb = shaped (layernorm_rule c) ff'"
    and cv: "conv_sizes (ff sb) (inp + c) c 3 1"
    by (auto simp: SubBlock_sizes_def is_shaped_def is_shaped2_def)
  obtain ah where ah: "attn sb x rot = Inr ah" "shape ah = [b, l, c]"
    using x by (simp add: m shaped2_def attention_rule_def)
  obtain ah' where ah': "attnorm sb ah = Inr ah'" "shape ah' = [b, l, c]"
    using ah(2) by (simp add: m shaped_def layernorm_rule_def)
  have "shape (pointwise (gelu F) ah') = [b, l, c]" using ah'(2) by (simp add: pointwise_def)
  from cat2_shape [OF this x]
  obtain h where h: "cat2 (pointwise (gelu F) ah') x = Inr h" "shape h = [b, l, c + inp]" by blast
  obtain hp where hp: "permute021 h = Inr hp" "shape hp = [b, c + inp, l]"
    using h(2) by (simp add: permute021_3)
  have cv': "conv_sizes (ff sb) (c + inp) c 3 1" using cv by (simp add: add.commute)
  from conv1d_shape [OF cv' hp(2) l]
  obtain hf where hf: "conv1d (ff sb) hp = Inr hf" "shape hf = [b, c, l]" by blast
  obtain hf2 where hf2: "permute021 hf = Inr hf2" "shape hf2 = [b, l, c]"
    using hf(2) by (simp add: permute021_3)
  obtain hf3 where hf3: "ffnorm sb hf2 = Inr hf3" "shape hf3 = [b, l, c]"
    using hf2(2) by (simp add: m shaped_def layernorm_rule_def)
  have "shape (pointwise (gelu F) hf3) = [b, l, c]" using hf3(2) by (simp add: pointwise_def)
  from cat2_shape [OF h(2) this]
  obtain y where y: "cat2 h (pointwise (gelu F) hf3) = Inr y" "shape y = [b, l, c + inp + c]"
    by blast
  have "SubBlock_forward F sb x rot = Inr y"
    by (simp add: SubBlock_forward_def ah ah' h hp hf hf2 hf3 y)
  moreover have "shape y = [b, l, inp + c * 2]" using y(2) by simp
  ultimately show ?thesis by blast
qed


lemma broadcast_rev_same: "broadcast_rev s s = Some s"
  by (induction s) simp_all

lemma broadcast_shapes_same [simp]: "broadcast_shapes s s = Some s"
  by (simp add: broadcast_shapes_def broadcast_rev_same)

lemma add_shape:
  "shape a = s \<Longrightarrow> shape b = s \<Longrightarrow> \<exists>y. add a b = Inr y \<and> shape y = s"
  by (simp add: add_def)

lemma slice_from_shape:
  "shape h = [b, l, m] \<Longrightarrow> \<exists>y. slice_from h n = Inr y \<and> shape y = [b, l, m - n]"
  by (simp add: slice_from_def)

lemma ConcatAttentionBlock_forward_shape:
  assumes sz: "ConcatAttentionBlock_sizes trunk c te blk"
    and x: "shape x = [b, l, trunk]" and e: "shape emb = [b, te]" and l: "0 < l"
  shows "\<exists>y. ConcatAttentionBlock_forward F blk x emb rot = Inr y \<and> shape y = [b, l, trunk]"
proof -
  from sz obtain fp where p: "prenorm blk = shaped2 (prenorm_rule trunk te) fp"
    and b1: "SubBlock_sizes trunk c (block1 blk)"
    and b2: "SubBlock_sizes (trunk + c * 2) c (block2 blk)"
    and lo: "linear_sizes (cab_out blk) (c * 4) trunk"
    by (auto simp: ConcatAttentionBlock_sizes_def is_shaped2_def)
  obtain h0 where h0: "prenorm blk x emb = Inr h0" "shape h0 = [b, l, trunk]"
    using x e by (simp add: p shaped2_def prenorm_rule_def)
  from SubBlock_forward_shape [OF b1 h0(2) l]
  obtain h1 where h1: "SubBlock_forward F (block1 blk) h0 rot = Inr h1"
    "shape h1 = [b, l, trunk + c * 2]" by blast
  from SubBlock_forward_shape [OF b2 h1(2) l]
  obtain h2 where h2: "SubBlock_forward F (block2 blk) h1 rot = Inr h2"
    "shape h2 = [b, l, trunk + c * 2 + c * 2]" by blast
  have n: "size_at x (- 1) = Inr trunk" using x by simp
  from slice_from_shape [OF h2(2), of trunk]
  obtain hs where hs: "slice_from h2 trunk = Inr hs" "shape hs = [b, l] @ [c * 4]" by auto
  from linear_shape [OF lo hs(2)]
  obtain h3 where h3: "linear (cab_out blk) hs = Inr h3" "shape h3 = [b, l, trunk]" by auto
  from add_shape [OF h3(2) x]
  obtain y where y: "add h3 x = Inr y" "shape y = [b, l, trunk]" by blast
  have "ConcatAttentionBlock_forward F blk x emb rot = Inr y"
    by (simp add: ConcatAttentionBlock_forward_def h0 h1 h2 n hs h3 y)
  with y(2) show ?thesis by blast
qed

lemma run_layers_shape:
  assumes "list_all (ConcatAttentionBlock_sizes trunk c te) ls"
    and "shape x = [b, l, trunk]" and "shape emb = [b, te]" and "0 < l"
  shows "\<exists>y. run_layers F ls x emb rot = Inr y \<and> shape y = [b, l, trunk]"
  using assms
proof (induction ls arbitrary: x)
  case Nil
  then show ?case by simp
next
  case (Cons blk ls)
  from Cons.prems(1) have blk: "ConcatAttentionBlock_sizes trunk c te blk"
    and rest: "list_all (ConcatAttentionBlock_sizes trunk c te) ls" by simp_all
  from ConcatAttentionBlock_forward_shape [OF blk Cons.prems(2,3,4)]
  obtain x' where x': "ConcatAttentionBlock_forward F blk x emb rot = Inr x'"
    "shape x' = [b, l, trunk]" by blast
  from Cons.IH [OF rest x'(2) Cons.prems(3,4)]
  show ?case by (simp add: x'(1))
qed


lemma forward_trunk_factor:
  assumes bw: "built_with kw net"
    and x: "shape x = [b, k_in_channels kw, l]" and ts: "shape timesteps = [b]"
    and ce: "shape code_emb = [b, l, k_prenet_channels kw]" and l: "0 < l"
  shows "\<exists>x5. shape x5 = [b, k_model_channels kw, l]
             \<and> forward_trunk net F x timesteps code_emb = out_forward (out net) x5"
proof -
  let ?te = "k_time_embed_dim kw" and ?p = "k_prenet_channels kw" and ?m = "k_model_channels kw"
  from bw have te: "time_embed_dim net = ?te"
    and ib: "conv_sizes (inp_block net) (k_in_channels kw) ?p 3 1"
    and t1: "linear_sizes (te_linear1 (time_embed net)) ?te ?te"
    and t2: "linear_sizes (te_linear2 (time_embed net)) ?te ?te"
    and ig: "linear_sizes (intg net) (?p * 2) ?m"
    and ls: "list_all (ConcatAttentionBlock_sizes ?m (k_contraction_dim kw) ?te) (layers net)"
    and oc: "conv_sizes (out_conv (out net)) ?m (k_out_channels kw) 3 1"
    by (simp_all add: built_with_def)
  from bw obtain fr where rot: "rotary_embeddings net
      = (\<lambda>n. Inr \<lparr>shape = [n, k_rotary_emb_dim kw], entry = fr n\<rparr>)"
    by (auto simp: built_with_def)
  from bw obtain fo where on: "out_norm (out net) = shaped (groupnorm_rule ?m) fo"
    by (auto simp: built_with_def is_shaped_def)
  obtain e where e: "timestep_embedding F timesteps (time_embed_dim net) = Inr e"
    "shape e = [b] @ [?te]"
    using ts by (simp add: timestep_embedding_def shaped_def te)
  from linear_shape [OF t1 e(2)]
  obtain e1 where e1: "linear (te_linear1 (time_embed net)) e = Inr e1" "shape e1 = [b] @ [?te]"
    by blast
  have "shape (pointwise silu e1) = [b] @ [?te]" using e1(2) by (simp add: pointwise_def)
  from linear_shape [OF t2 this]
  obtain blk_emb where be: "linear (te_linear2 (time_embed net)) (pointwise silu e1) = Inr blk_emb"
    "shape blk_emb = [b, ?te]" by auto
  have tef: "time_embed_forward (time_embed net) e = Inr blk_emb"
    by (simp add: time_embed_forward_def e1 be)
  from conv1d_shape [OF ib x l]
  obtain x1 where x1: "conv1d (inp_block net) x = Inr x1" "shape x1 = [b, ?p, l]" by blast
  obtain x2 where x2: "permute021 x1 = Inr x2" "shape x2 = [b, l, ?p]"
    using x1(2) by (simp add: permute021_3)
  have n: "size_at x2 1 = Inr l" using x2(2) by simp
  obtain r where r: "rotary_embeddings net l = Inr r" by (simp add: rot)
  from cat2_shape [OF x2(2) ce]
  obtain xc where xc: "cat2 x2 code_emb = Inr xc" "shape xc = [b, l] @ [?p * 2]" by auto
  from linear_shape [OF ig xc(2)]
  obtain x3 where x3: "linear (intg net) xc = Inr x3" "shape x3 = [b, l, ?m]" by auto
  from run_layers_shape [OF ls x3(2) be(2) l]
  obtain x4 where x4: "run_layers F (layers net) x3 blk_emb r = Inr x4" "shape x4 = [b, l, ?m]"
    by blast
  obtain x5 where x5: "permute021 x4 = Inr x5" "shape x5 = [b, ?m, l]"
    using x4(2) by (simp add: permute021_3)
  have "forward_trunk net F x timesteps code_emb = out_forward (out net) x5"
    by (simp add: forward_trunk_def e tef x1 x2 n r xc x3 x4 x5)
  with x5(2) show ?thesis by blast
qed

lemma out_forward_shape:
  assumes bw: "built_with kw net" and x5: "shape x5 = [b, k_model_channels kw, l]" and l: "0 < l"
  shows "\<exists>y. out_forward (out net) x5 = Inr y \<and> shape y = [b, k_out_channels kw, l]"
proof -
  let ?m = "k_model_channels kw"
  from bw have oc: "conv_sizes (out_conv (out net)) ?m (k_out_channels kw) 3 1"
    by (simp add: built_with_def)
  from bw obtain fo where on: "out_norm (out net) = shaped (groupnorm_rule ?m) fo"
    by (auto simp: built_with_def is_shaped_def)
  obtain h where h: "out_norm (out net) x5 = Inr h" "shape h = [b, ?m, l]"
    using x5 by (simp add: on shaped_def groupnorm_rule_def)
  have "shape (pointwise silu h) = [b, ?m, l]" using h(2) by (simp add: pointwise_def)
  from conv1d_shape [OF oc this l]
  obtain y where y: "conv1d (out_conv (out net)) (pointwise silu h) = Inr y"
    "shape y = [b, k_out_channels kw, l]" by blast
  have "out_forward (out net) x5 = Inr y" by (simp add: out_forward_def h y)
  with y(2) show ?thesis by blast
qed

lemma forward_trunk_shape:
  assumes bw: "built_with kw net"
    and x: "shape x = [b, k_in_channels kw, l]" and ts: "shape timesteps = [b]"
    and ce: "shape code_emb = [b, l, k_prenet_channels kw]" and l: "0 < l"
  shows "\<exists>y. forward_trunk net F x timesteps code_emb = Inr y
             \<and> shape y = [b, k_out_channels kw, l]"
proof -
  from forward_trunk_factor [OF bw x ts ce l, of F]
  obtain x5 where "shape x5 = [b, k_model_channels kw, l]"
    "forward_trunk net F x timesteps code_emb = out_forward (out net) x5" by blast
  with out_forward_shape [OF bw this(1) l] show ?thesis by simp
qed

lemma mask_code_emb_shape:
  assumes "shape code_emb = [b, s, p]" "shape (unconditioned_embedding net) = [1, 1, p]"
    and "shape prior = b # rest"
  shows "\<exists>m. mask_code_emb net u prior code_emb = Inr m \<and> shape m = [b, s, p]"
proof (cases "training net \<and> 0 < unconditioned_percentage net")
  case True
  then show ?thesis using mask_code_emb_training [OF _ _ assms, of u] by simp
next
  case False
  then show ?thesis using assms(1) by (auto simp: mask_code_emb_def)
qed

lemma timestep_independent_shape:
  assumes bw: "built_with kw net"
    and c: "shape c = [b, s, k_input_vec_dim kw]" and pos: "0 < s" "0 < l"
  shows "\<exists>y. timestep_independent net F u (Some c) l = Inr y
             \<and> shape y = [b, l, k_prenet_channels kw]"
proof -
  let ?p = "k_prenet_channels kw"
  from bw have cb: "converters_built kw net"
    and ue: "shape (unconditioned_embedding net) = [1, 1, ?p]"
    by (simp_all add: built_with_def)
  from cb obtain conv enc f where
    conv: "attr (if ar_prior net then ar_input net else input_converter net) = Inr conv"
    and enc: "attr (if ar_prior net then ar_prior_intg net else code_converter net) = Inr enc"
    and cs: "linear_sizes conv (k_input_vec_dim kw) ?p"
    and es: "enc = shaped (encoder_rule ?p) f"
    by (auto simp: converters_built_def attr_def is_shaped_def split: if_splits option.splits)
  have c': "shape c = [b, s] @ [k_input_vec_dim kw]" using c by simp
  from linear_shape [OF cs c']
  obtain c0 where c0: "linear conv c = Inr c0" "shape c0 = [b, s, ?p]" by auto
  obtain ce where ce: "enc c0 = Inr ce" "shape ce = [b, s, ?p]"
    using c0(2) by (simp add: es shaped_def encoder_rule_def)
  from mask_code_emb_shape [OF ce(2) ue c, of u]
  obtain m where m: "mask_code_emb net u c ce = Inr m" "shape m = [b, s, ?p]" by blast
  from resample_entry [OF m(2) pos, where src = "nearest_source F"]
  have "timestep_independent net F u (Some c) l
      = Inr \<lparr>shape = [b, l, ?p],
             entry = (\<lambda>idx. entry m [idx ! 0, nearest_index (nearest_source F) s l (idx ! 1), idx ! 2])\<rparr>"
    unfolding timestep_independent_def by (simp add: conv enc c0 ce m)
  then show ?thesis by simp
qed

lemma repeat_unconditioned_shape:
  "shape t = [1, 1, p] \<Longrightarrow> \<exists>y. repeat t [b, l, 1] = Inr y \<and> shape y = [b, l, p]"
  by (simp add: repeat_def)

lemma forward_code_emb_shape:
  assumes bw: "built_with kw net"
    and x: "shape x = [b, k_in_channels kw, l]" and l: "0 < l"
    and ok: "conditioning_ok kw b l codes conditioning_input precomputed conditioning_free"
  shows "\<exists>y. forward_code_emb net F u x codes precomputed conditioning_free = Inr y
             \<and> shape y = [b, l, k_prenet_channels kw]"
proof (cases conditioning_free)
  case True
  from bw have "shape (unconditioned_embedding net) = [1, 1, k_prenet_channels kw]"
    by (simp add: built_with_def)
  from repeat_unconditioned_shape [OF this, of b l]
  show ?thesis using True x by (simp add: forward_code_emb_def)
next
  case False
  show ?thesis
  proof (cases precomputed)
    case (Some e)
    then show ?thesis using False ok by (simp add: forward_code_emb_def conditioning_ok_def)
  next
    case None
    with False ok obtain c where c: "codes = Some c" "length (shape c) = 3" "shape c ! 0 = b"
      "0 < shape c ! 1" "shape c ! 2 = k_input_vec_dim kw"
      by (auto simp: conditioning_ok_def split: option.splits)
    from c(2) obtain b' s' v' where sh: "shape c = [b', s', v']"
      by (auto simp: numeral_3_eq_3 length_Suc_conv)
    with c have sc: "shape c = [b, s', k_input_vec_dim kw]" and s': "0 < s'" by simp_all
    from timestep_independent_shape [OF bw sc s' l, where F = F and u = u]
    show ?thesis using False None c(1) x by (simp add: forward_code_emb_def)
  qed
qed

lemma forward_shape:
  assumes bw: "built_with kw net"
    and x: "shape x = [b, k_in_channels kw, l]" and ts: "shape timesteps = [b]" and l: "0 < l"
    and ok: "conditioning_ok kw b l codes conditioning_input precomputed conditioning_free"
  shows "\<exists>y. forward net F u x timesteps codes conditioning_input precomputed conditioning_free
               = Inr y
             \<and> shape y = [b, k_out_channels kw, l]"
proof -
  have g: "forward_guard codes conditioning_input precomputed = Inr ()"
    using ok by (auto simp: forward_guard_def conditioning_ok_def split: option.splits)
  from forward_code_emb_shape [OF bw x l ok, where F = F and u = u]
  obtain ce where ce: "forward_code_emb net F u x codes precomputed conditioning_free = Inr ce"
    "shape ce = [b, l, k_prenet_channels kw]" by blast
  from forward_trunk_shape [OF bw x ts ce(2) l, of F]
  obtain y where y: "forward_trunk net F x timesteps ce = Inr y"
    "shape y = [b, k_out_channels kw, l]" by blast
  show ?thesis
    by (simp add: forward_def g ce y add_scalar_def)
qed


lemma SubBlock_init_sizes: "SubBlock_sizes inp c (SubBlock_init env name i inp c)"
  by (auto simp: SubBlock_sizes_def SubBlock_init_def is_shaped_def is_shaped2_def
      conv_sizes_def nn_Conv1d_def)

lemma ConcatAttentionBlock_init_sizes:
  "ConcatAttentionBlock_sizes trunk c te (ConcatAttentionBlock_init env i trunk c te)"
  by (auto simp: ConcatAttentionBlock_sizes_def ConcatAttentionBlock_init_def is_shaped2_def
      SubBlock_init_sizes linear_sizes_def zero_weight_def nn_Linear_def)

lemma built_with_modules: "built_with kw (TransformerDiffusion_modules kw env st)"
  unfolding built_with_def TransformerDiffusion_modules_def
  by (auto simp: conv_sizes_def linear_sizes_def nn_Conv1d_def nn_Linear_def zero_module_def
      converters_built_def is_shaped_def list_all_iff ConcatAttentionBlock_init_sizes)

lemma built_with_init: "TransformerDiffusion_init kw env = Inr net \<Longrightarrow> built_with kw net"
  by (auto simp: TransformerDiffusion_init_def and_then_def built_with_modules split: sum.splits)

text \<open>
  Claim C3. For a model with the architecture that the constructor gives for its arguments
  (any weights), an input of shape (b, in_channels, l) with \<open>l > 0\<close>, one timestep per batch
  element and conditioning arguments that \<open>forward\<close> accepts, \<open>forward\<close> returns a tensor,
  and its shape is (b, out_channels, l).
\<close>

theorem forward_output_shape:
  assumes "built_with kw net"
    and "shape x = [b, k_in_channels kw, l]" and "shape timesteps = [b]" and "0 < l"
    and "conditioning_ok kw b l codes conditioning_input precomputed conditioning_free"
  shows "\<exists>out. forward net F u x timesteps codes conditioning_input precomputed conditioning_free
                 = Inr out
               \<and> shape out = [b, k_out_channels kw, l]"
  using assms by (rule forward_shape)

theorem forward_output_shape_witness:
  "(\<exists>out. forward demo_net demo_F demo_u (const_tensor [2, 2, 3] 1) (const_tensor [2] 600)
            (Some (const_tensor [2, 5, 2] 1)) None None False = Inr out
          \<and> shape out = [2, 4, 3])
   \<and> (\<exists>out. forward demo_net demo_F demo_u (const_tensor [2, 2, 3] 1) (const_tensor [2] 600)
            None None None True = Inr out
          \<and> shape out = [2, 4, 3])"
proof -
  have bw: "built_with demo_kwargs demo_net"
    unfolding demo_net_def by (rule built_with_modules)
  have x: "shape (const_tensor [2, 2, 3] 1) = [2, k_in_channels demo_kwargs, 3]"
    and ts: "shape (const_tensor [2] 600) = [2]" and l: "0 < (3::nat)"
    by (simp_all add: const_tensor_def demo_kwargs_def)
  have ok1: "conditioning_ok demo_kwargs 2 3 (Some (const_tensor [2, 5, 2] 1)) None None False"
    and ok2: "conditioning_ok demo_kwargs 2 3 None None None True"
    by (simp_all add: conditioning_ok_def const_tensor_def demo_kwargs_def)
  have o: "k_out_channels demo_kwargs = 4" by (simp add: demo_kwargs_def)
  from forward_output_shape [OF bw x ts l ok1, of demo_F demo_u]
    forward_output_shape [OF bw x ts l ok2, of demo_F demo_u]
  show ?thesis unfolding o by blast
qed

section \<open>Zero-initialised projections\<close>

lemma bindex_valid:
  assumes "valid_index shp idx"
  shows "bindex shp idx = idx"
proof -
  from assms have a: "list_all2 (\<lambda>i d. i < d) idx shp" by (simp add: valid_index_def)
  then have len: "length idx = length shp" by (rule list_all2_lengthD)
  from a have "map2 (\<lambda>d i. if d = 1 then 0 else i) shp idx = idx"
    by (induction idx shp rule: list_all2_induct) auto
  then show ?thesis by (simp add: bindex_def len)
qed

lemma ConcatAttentionBlock_forward_factor:
  assumes sz: "ConcatAttentionBlock_sizes trunk c te blk"
    and x: "shape x = [b, l, trunk]" and e: "shape emb = [b, te]" and l: "0 < l"
  shows "\<exists>h2. shape h2 = [b, l, trunk + c * 2 + c * 2]
     \<and> ConcatAttentionBlock_forward F blk x emb rot
         = and_then (slice_from h2 trunk) (\<lambda>hs.
           and_then (linear (cab_out blk) hs) (\<lambda>h. add h x))"
proof -
  from sz obtain fp where p: "prenorm blk = shaped2 (prenorm_rule trunk te) fp"
    and b1: "SubBlock_sizes trunk c (block1 blk)"
    and b2: "SubBlock_sizes (trunk + c * 2) c (block2 blk)"
    by (auto simp: ConcatAttentionBlock_sizes_def is_shaped2_def)
  obtain h0 where h0: "prenorm blk x emb = Inr h0" "shape h0 = [b, l, trunk]"
    using x e by (simp add: p shaped2_def prenorm_rule_def)
  from SubBlock_forward_shape [OF b1 h0(2) l]
  obtain h1 where h1: "SubBlock_forward F (block1 blk) h0 rot = Inr h1"
    "shape h1 = [b, l, trunk + c * 2]" by blast
  from SubBlock_forward_shape [OF b2 h1(2) l]
  obtain h2 where h2: "SubBlock_forward F (block2 blk) h1 rot = Inr h2"
    "shape h2 = [b, l, trunk + c * 2 + c * 2]" by blast
  have n: "size_at x (- 1) = Inr trunk" using x by simp
  have "ConcatAttentionBlock_forward F blk x emb rot
         = and_then (slice_from h2 trunk) (\<lambda>hs.
           and_then (linear (cab_out blk) hs) (\<lambda>h. add h x))"
    by (simp add: ConcatAttentionBlock_forward_def h0 h1 h2 n)
  with h2(2) show ?thesis by blast
qed

lemma zero_linear_residual:
  assumes h: "shape h2 = [b, l, trunk + c * 2 + c * 2]" and x: "shape x = [b, l, trunk]"
    and w: "l_weight lin = (\<lambda>_ _. 0)" "l_bias lin = None" "l_in lin = c * 4" "l_out lin = trunk"
  shows "\<exists>y. and_then (slice_from h2 trunk) (\<lambda>hs. and_then (linear lin hs) (\<lambda>h. add h x)) = Inr y
             \<and> tensor_eq y x"
  using h x w
  by (simp add: slice_from_def linear_def add_def tensor_eq_def bindex_valid)

lemma zero_conv_output:
  assumes "c_weight cv = (\<lambda>_ _ _. 0)" "c_bias cv = Some (\<lambda>_. 0)"
    and "conv_sizes cv n_in n_out 3 1" and "shape h = [b, n_in, l]" "0 < l"
  shows "conv1d cv h = Inr \<lparr>shape = [b, n_out, l], entry = (\<lambda>_. 0)\<rparr>"
  using assms by (simp add: conv1d_def conv_sizes_def)


lemma init_modules:
  assumes "TransformerDiffusion_init kw env = Inr net"
  shows "\<exists>st. net = TransformerDiffusion_modules kw env st"
  using assms by (auto simp: TransformerDiffusion_init_def and_then_def split: sum.splits)

lemma init_layers:
  assumes "blk \<in> set (layers (TransformerDiffusion_modules kw env st))"
  shows "\<exists>i. blk = ConcatAttentionBlock_init env i (k_model_channels kw) (k_contraction_dim kw)
                       (k_time_embed_dim kw)"
  using assms by (auto simp: TransformerDiffusion_modules_def)

lemma init_block_identity:
  assumes x: "shape x = [b, l, trunk]" and e: "shape emb = [b, te]" and l: "0 < l"
  shows "\<exists>y. ConcatAttentionBlock_forward F (ConcatAttentionBlock_init env i trunk c te) x emb rot
               = Inr y \<and> tensor_eq y x"
proof -
  let ?blk = "ConcatAttentionBlock_init env i trunk c te"
  have sz: "ConcatAttentionBlock_sizes trunk c te ?blk" by (rule ConcatAttentionBlock_init_sizes)
  from ConcatAttentionBlock_forward_factor [OF sz x e l, where F = F and rot = rot]
  obtain h2 where h2: "shape h2 = [b, l, trunk + c * 2 + c * 2]"
    and f: "ConcatAttentionBlock_forward F ?blk x emb rot
         = and_then (slice_from h2 trunk) (\<lambda>hs.
           and_then (linear (cab_out ?blk) hs) (\<lambda>h. add h x))" by blast
  have w: "l_weight (cab_out ?blk) = (\<lambda>_ _. 0)" "l_bias (cab_out ?blk) = None"
    "l_in (cab_out ?blk) = c * 4" "l_out (cab_out ?blk) = trunk"
    by (simp_all add: ConcatAttentionBlock_init_def zero_weight_def nn_Linear_def)
  from zero_linear_residual [OF h2 x w] show ?thesis unfolding f .
qed

lemma init_out_forward_zero:
  assumes h: "shape h = [b, k_model_channels kw, l]" and l: "0 < l"
  shows "out_forward (out (TransformerDiffusion_modules kw env st)) h
       = Inr (const_tensor [b, k_out_channels kw, l] 0)"
proof -
  let ?net = "TransformerDiffusion_modules kw env st"
  have on: "out_norm (out ?net) = shaped (groupnorm_rule (k_model_channels kw)) (module1 env ''out.0'' 0)"
    and cw: "c_weight (out_conv (out ?net)) = (\<lambda>_ _ _. 0)"
    and cb: "c_bias (out_conv (out ?net)) = Some (\<lambda>_. 0)"
    and cs: "conv_sizes (out_conv (out ?net)) (k_model_channels kw) (k_out_channels kw) 3 1"
    by (simp_all add: TransformerDiffusion_modules_def zero_module_def nn_Conv1d_def conv_sizes_def)
  obtain h' where h': "out_norm (out ?net) h = Inr h'" "shape h' = [b, k_model_channels kw, l]"
    using h by (simp add: on shaped_def groupnorm_rule_def)
  have "shape (pointwise silu h') = [b, k_model_channels kw, l]"
    using h'(2) by (simp add: pointwise_def)
  from zero_conv_output [OF cw cb cs this l]
  show ?thesis by (simp add: out_forward_def h' const_tensor_def)
qed

lemma init_forward_zero:
  assumes x: "shape x = [b, k_in_channels kw, l]" and ts: "shape timesteps = [b]" and l: "0 < l"
    and ok: "conditioning_ok kw b l codes conditioning_input precomputed conditioning_free"
  shows "forward (TransformerDiffusion_modules kw env st) F u x timesteps codes conditioning_input
           precomputed conditioning_free
       = Inr (const_tensor [b, k_out_channels kw, l] 0)"
proof -
  let ?net = "TransformerDiffusion_modules kw env st"
  have bw: "built_with kw ?net" by (rule built_with_modules)
  have g: "forward_guard codes conditioning_input precomputed = Inr ()"
    using ok by (auto simp: forward_guard_def conditioning_ok_def split: option.splits)
  from forward_code_emb_shape [OF bw x l ok, where F = F and u = u]
  obtain ce where ce: "forward_code_emb ?net F u x codes precomputed conditioning_free = Inr ce"
    "shape ce = [b, l, k_prenet_channels kw]" by blast
  from forward_trunk_factor [OF bw x ts ce(2) l, of F]
  obtain x5 where x5: "shape x5 = [b, k_model_channels kw, l]"
    "forward_trunk ?net F x timesteps ce = out_forward (out ?net) x5" by blast
  have "forward_trunk ?net F x timesteps ce = Inr (const_tensor [b, k_out_channels kw, l] 0)"
    unfolding x5(2) using x5(1) l by (rule init_out_forward_zero)
  then show ?thesis
    by (simp add: forward_def g ce add_scalar_def const_tensor_def)
qed

lemma demo_init: "TransformerDiffusion_init demo_kwargs demo_env = Inr demo_net"
  by (simp add: TransformerDiffusion_init_def init_param_store_def demo_net_def demo_kwargs_def)

lemma demo_layers: "layers demo_net = [ConcatAttentionBlock_init demo_env 0 2 1 2]"
  by (simp add: demo_net_def TransformerDiffusion_modules_def demo_kwargs_def)

text \<open>
  Claim C5. In a model as the constructor returns it, every ConcatAttentionBlock has an
  output projection whose weight is zero everywhere, and its \<open>forward\<close> returns the trunk
  input unchanged (for a trunk input (b, l, model_channels) with \<open>l > 0\<close> and one timestep
  embedding per batch element); the last convolution has zero weight and zero bias, the
  output head returns the zero tensor for every input (b, model_channels, l), and so
  does \<open>forward\<close> for every input it accepts.
\<close>

theorem zero_initialised_projections:
  assumes init: "TransformerDiffusion_init kw env = Inr net"
    and x: "shape x = [b, l, k_model_channels kw]" and e: "shape emb = [b, k_time_embed_dim kw]"
    and l: "0 < l"
    and xin: "shape xin = [b, k_in_channels kw, l]" and ts: "shape timesteps = [b]"
    and ok: "conditioning_ok kw b l codes conditioning_input precomputed conditioning_free"
  shows "(\<forall>blk \<in> set (layers net).
            l_weight (cab_out blk) = (\<lambda>_ _. 0)
          \<and> (\<exists>y. ConcatAttentionBlock_forward F blk x emb rot = Inr y \<and> tensor_eq y x))
     \<and> c_weight (out_conv (out net)) = (\<lambda>_ _ _. 0)
     \<and> c_bias (out_conv (out net)) = Some (\<lambda>_. 0)
     \<and> (\<forall>h. shape h = [b, k_model_channels kw, l] \<longrightarrow>
            out_forward (out net) h = Inr (const_tensor [b, k_out_channels kw, l] 0))
     \<and> forward net F u xin timesteps codes conditioning_input precomputed conditioning_free
         = Inr (const_tensor [b, k_out_channels kw, l] 0)"
proof -
  from init_modules [OF init] obtain st where net: "net = TransformerDiffusion_modules kw env st"
    by blast
  have blocks: "l_weight (cab_out blk) = (\<lambda>_ _. 0)
          \<and> (\<exists>y. ConcatAttentionBlock_forward F blk x emb rot = Inr y \<and> tensor_eq y x)"
    if "blk \<in> set (layers net)" for blk
  proof -
    from that init_layers obtain i where
      blk: "blk = ConcatAttentionBlock_init env i (k_model_channels kw) (k_contraction_dim kw)
                       (k_time_embed_dim kw)"
      unfolding net by blast
    show ?thesis unfolding blk
      using init_block_identity [OF x e l]
      by (simp add: ConcatAttentionBlock_init_def zero_weight_def)
  qed
  have "c_weight (out_conv (out net)) = (\<lambda>_ _ _. 0)" "c_bias (out_conv (out net)) = Some (\<lambda>_. 0)"
    unfolding net by (simp_all add: TransformerDiffusion_modules_def zero_module_def nn_Conv1d_def)
  moreover have "\<forall>h. shape h = [b, k_model_channels kw, l] \<longrightarrow>
            out_forward (out net) h = Inr (const_tensor [b, k_out_channels kw, l] 0)"
    unfolding net using l by (simp add: init_out_forward_zero)
  moreover have "forward net F u xin timesteps codes conditioning_input precomputed conditioning_free
         = Inr (const_tensor [b, k_out_channels kw, l] 0)"
    unfolding net using xin ts l ok by (rule init_forward_zero)
  ultimately show ?thesis using blocks by blast
qed


theorem zero_initialised_projections_witness:
  "TransformerDiffusion_init demo_kwargs demo_env = Inr demo_net
   \<and> (\<exists>y. ConcatAttentionBlock_forward demo_F (ConcatAttentionBlock_init demo_env 0 2 1 2)
             (const_tensor [1, 3, 2] 7) (const_tensor [1, 2] 1) (const_tensor [3, 2] 0) = Inr y
          \<and> shape y = [1, 3, 2] \<and> entry y [0, 1, 1] = 7)
   \<and> forward demo_net demo_F demo_u (const_tensor [1, 2, 3] 1) (const_tensor [1] 600)
        None None None True = Inr (const_tensor [1, 4, 3] 0)"
proof -
  let ?x = "const_tensor [1, 3, 2] 7" and ?blk = "ConcatAttentionBlock_init demo_env 0 2 1 2"
  have k: "k_model_channels demo_kwargs = 2" "k_time_embed_dim demo_kwargs = 2"
    "k_in_channels demo_kwargs = 2" "k_out_channels demo_kwargs = 4"
    by (simp_all add: demo_kwargs_def)
  have h: "shape ?x = [1, 3, k_model_channels demo_kwargs]"
    "shape (const_tensor [1, 2] 1) = [1, k_time_embed_dim demo_kwargs]" "0 < (3::nat)"
    "shape (const_tensor [1, 2, 3] 1) = [1, k_in_channels demo_kwargs, 3]"
    "shape (const_tensor [1] 600) = [1]"
    "conditioning_ok demo_kwargs 1 3 None None None True"
    by (simp_all add: const_tensor_def k conditioning_ok_def)
  note t = zero_initialised_projections [OF demo_init h, of demo_F "const_tensor [3, 2] 0" demo_u]
  have mem: "?blk \<in> set (layers demo_net)" by (simp add: demo_layers)
  from t have "\<forall>blk \<in> set (layers demo_net).
      l_weight (cab_out blk) = (\<lambda>_ _. 0)
      \<and> (\<exists>y. ConcatAttentionBlock_forward demo_F blk ?x (const_tensor [1, 2] 1)
                 (const_tensor [3, 2] 0) = Inr y \<and> tensor_eq y ?x)"
    by (rule conjunct1)
  from this mem obtain y where y: "ConcatAttentionBlock_forward demo_F ?blk ?x (const_tensor [1, 2] 1)
                 (const_tensor [3, 2] 0) = Inr y" and eq: "tensor_eq y ?x"
    by (auto dest!: bspec)
  have v: "valid_index [1, 3, 2] [0, 1, 1]" by (simp add: valid_index_def)
  from eq v have "shape y = [1, 3, 2]" "entry y [0, 1, 1] = 7"
    by (simp_all add: tensor_eq_def const_tensor_def)
  moreover from t have "forward demo_net demo_F demo_u (const_tensor [1, 2, 3] 1) (const_tensor [1] 600)
        None None None True = Inr (const_tensor [1, 4, 3] 0)"
    unfolding k by simp
  ultimately show ?thesis using y demo_init by blast
qed

section \<open>Unconditioned calls of forward\<close>

lemma forward_returns_guard:
  assumes "forward net F u x timesteps codes conditioning_input precomputed conditioning_free
           = Inr y"
  shows "forward_guard codes conditioning_input precomputed = Inr ()"
proof (cases "forward_guard codes conditioning_input precomputed")
  case (Inl e)
  then show ?thesis using assms by (simp add: forward_def)
next
  case (Inr v)
  then show ?thesis by simp
qed

lemma forward_conditioning_free_body:
  assumes "forward_guard codes conditioning_input precomputed = Inr ()"
  shows "forward net F u x timesteps codes conditioning_input precomputed True
       = and_then (size_at x 0) (\<lambda>b.
         and_then (size_at x (- 1)) (\<lambda>n.
         and_then (repeat (unconditioned_embedding net) [b, n, 1]) (\<lambda>code_emb.
         and_then (forward_trunk net F x timesteps code_emb) (\<lambda>h.
           Inr (add_scalar h 0)))))"
  using assms
  by (simp add: forward_def forward_code_emb_def forward_unused_params_def
      extraneous_addition_def and_then_def split: sum.splits)

lemma forward_conditioning_free_returns:
  assumes "built_with kw net"
    and "shape x = [b, k_in_channels kw, l]" and "shape timesteps = [b]" and "0 < l"
    and "precomputed = None \<or> (codes = None \<and> conditioning_input = None)"
  shows "\<exists>y. forward net F u x timesteps codes conditioning_input precomputed True = Inr y"
proof -
  have "conditioning_ok kw b l codes conditioning_input precomputed True"
    using assms(5) by (auto simp: conditioning_ok_def split: option.splits)
  from forward_shape [OF assms(1-4) this, where F = F and u = u] show ?thesis by blast
qed

text \<open>
  Claim C4. Take two calls of \<open>forward\<close> with \<open>conditioning_free=True\<close> on the same model,
  input and timesteps, with any codes, conditioning inputs, precomputed embeddings and
  random draws. If both return an output, the two outputs are equal, and the output is
  what the unconditioned embedding, the input and the timesteps give: the embedding
  repeated over batch and sequence and run through the trunk. (Every call that does not
  pass precomputed embeddings together with codes or a conditioning input does return, on
  an input of the model's shape: lemma \<open>forward_conditioning_free_returns\<close>.)
\<close>

theorem forward_conditioning_free_output_independent:
  assumes "forward net F u x timesteps codes conditioning_input precomputed True = Inr y"
    and "forward net F u' x timesteps codes' conditioning_input' precomputed' True = Inr y'"
  shows "y = y'
     \<and> and_then (size_at x 0) (\<lambda>b.
         and_then (size_at x (- 1)) (\<lambda>n.
         and_then (repeat (unconditioned_embedding net) [b, n, 1]) (\<lambda>code_emb.
         and_then (forward_trunk net F x timesteps code_emb) (\<lambda>h.
           Inr (add_scalar h 0)))))
       = Inr y"
proof -
  let ?body = "and_then (size_at x 0) (\<lambda>b.
         and_then (size_at x (- 1)) (\<lambda>n.
         and_then (repeat (unconditioned_embedding net) [b, n, 1]) (\<lambda>code_emb.
         and_then (forward_trunk net F x timesteps code_emb) (\<lambda>h.
           Inr (add_scalar h 0)))))"
  have "forward net F u x timesteps codes conditioning_input precomputed True = ?body"
    using forward_returns_guard [OF assms(1)] by (rule forward_conditioning_free_body)
  with assms(1) have a: "?body = Inr y" by simp
  have "forward net F u' x timesteps codes' conditioning_input' precomputed' True = ?body"
    using forward_returns_guard [OF assms(2)] by (rule forward_conditioning_free_body)
  with assms(2) have b: "?body = Inr y'" by simp
  from a b have "Inr y = (Inr y' :: T res)" by (rule trans [OF sym])
  then have "y = y'" by simp
  with a show ?thesis by simp
qed

theorem forward_conditioning_free_output_independent_witness:
  "forward demo_net demo_F demo_u (const_tensor [1, 2, 3] 1) (const_tensor [1] 600)
     (Some (const_tensor [1, 3, 2] 1)) (Some (const_tensor [1, 3, 2] 5)) None True
     = Inr (const_tensor [1, 4, 3] 0)
   \<and> forward demo_net demo_F (\<lambda>_. 0) (const_tensor [1, 2, 3] 1) (const_tensor [1] 600)
     None None (Some (const_tensor [1, 3, 2] 9)) True
     = Inr (const_tensor [1, 4, 3] 0)
   \<and> and_then (size_at (const_tensor [1, 2, 3] 1) 0) (\<lambda>b.
       and_then (size_at (const_tensor [1, 2, 3] 1) (- 1)) (\<lambda>n.
       and_then (repeat (unconditioned_embedding demo_net) [b, n, 1]) (\<lambda>code_emb.
       and_then (forward_trunk demo_net demo_F (const_tensor [1, 2, 3] 1) (const_tensor [1] 600)
                   code_emb) (\<lambda>h.
         Inr (add_scalar h 0)))))
     = Inr (const_tensor [1, 4, 3] 0)"
proof -
  let ?x = "const_tensor [1, 2, 3] 1" and ?ts = "const_tensor [1] 600"
  have s: "shape ?x = [1, k_in_channels demo_kwargs, 3]" "shape ?ts = [1]" "0 < (3::nat)"
    by (simp_all add: const_tensor_def demo_kwargs_def)
  have o: "k_out_channels demo_kwargs = 4" by (simp add: demo_kwargs_def)
  have ok1: "conditioning_ok demo_kwargs 1 3 (Some (const_tensor [1, 3, 2] 1))
               (Some (const_tensor [1, 3, 2] 5)) None True"
    and ok2: "conditioning_ok demo_kwargs 1 3 None None (Some (const_tensor [1, 3, 2] 9)) True"
    by (simp_all add: conditioning_ok_def)
  have c1: "forward demo_net demo_F demo_u ?x ?ts
     (Some (const_tensor [1, 3, 2] 1)) (Some (const_tensor [1, 3, 2] 5)) None True
     = Inr (const_tensor [1, 4, 3] 0)"
    unfolding demo_net_def o [symmetric] using s ok1 by (rule init_forward_zero)
  have c2: "forward demo_net demo_F (\<lambda>_. 0) ?x ?ts
     None None (Some (const_tensor [1, 3, 2] 9)) True
     = Inr (const_tensor [1, 4, 3] 0)"
    unfolding demo_net_def o [symmetric] using s ok2 by (rule init_forward_zero)
  from forward_conditioning_free_output_independent [OF c1 c2] c1 c2 show ?thesis by simp
qed

end
